theory Spec2Isabelle
  imports Main "HOL-Library.Sublist"
begin

section \<open>Python values and exceptions\<close>

text \<open>
  The program reads a JSON document and talks to HTTP servers, a PDF text extractor, an
  OCR subprocess and an SQLite table. Values decoded from JSON are modelled by the
  datatype \<open>json\<close>; a Python \<open>dict\<close> is the list of its items in insertion
  order, so the keys of the list are distinct. A JSON number is an integer here (a float
  only ever matters through its truth value, which an integer has as well).
  Strings are lists of 8-bit characters, read as the code points 0..255.

  An exception that a function lets escape is the left injection of a sum.
\<close>

datatype json =
    JNull
  | JBool bool
  | JInt int
  | JStr string
  | JArr "json list"
  | JObj "(string \<times> json) list"

datatype exn =
    TypeError
  | AttributeError
  | IndexError
  | ValueError
  | OverflowError
  | BindingError
  | TransportError

text \<open>Truth value of a Python object, as \<open>if x\<close>, \<open>not x\<close> and \<open>x or y\<close> use it.\<close>

fun truthy :: "json \<Rightarrow> bool" where
  "truthy JNull = False"
| "truthy (JBool b) = b"
| "truthy (JInt n) = (n \<noteq> 0)"
| "truthy (JStr s) = (s \<noteq> [])"
| "truthy (JArr xs) = (xs \<noteq> [])"
| "truthy (JObj kvs) = (kvs \<noteq> [])"

definition py_or :: "json \<Rightarrow> json \<Rightarrow> json" where
  "py_or a b = (if truthy a then a else b)"

text \<open>\<open>d.get(k)\<close>: the value, \<open>None\<close> for a missing key, AttributeError when \<open>d\<close>
  is not a dictionary.\<close>

fun dict_get :: "json \<Rightarrow> string \<Rightarrow> exn + json" where
  "dict_get (JObj kvs) k = Inr (case map_of kvs k of None \<Rightarrow> JNull | Some v \<Rightarrow> v)"
| "dict_get _ k = Inl AttributeError"

section \<open>Strings\<close>

definition code :: "char \<Rightarrow> nat" where
  "code c = of_char c"

text \<open>\<open>str.isspace\<close> on the code points below 256.\<close>

definition is_space :: "char \<Rightarrow> bool" where
  "is_space c = (code c \<in> {9, 10, 11, 12, 13, 28, 29, 30, 31, 32, 133, 160})"

definition is_digit :: "char \<Rightarrow> bool" where
  "is_digit c = (48 \<le> code c \<and> code c \<le> 57)"

text \<open>\<open>\w\<close> of a \<open>str\<close> pattern: \<open>c.isalnum()\<close> or the underscore, below 256.\<close>

definition is_word :: "char \<Rightarrow> bool" where
  "is_word c = (let n = code c in
     (48 \<le> n \<and> n \<le> 57) \<or> (65 \<le> n \<and> n \<le> 90) \<or> (97 \<le> n \<and> n \<le> 122) \<or> n = 95 \<or>
     n \<in> {170, 178, 179, 181, 185, 186, 188, 189, 190} \<or>
     (192 \<le> n \<and> n \<le> 214) \<or> (216 \<le> n \<and> n \<le> 246) \<or> 248 \<le> n)"

text \<open>\<open>str.lower\<close> on one character: A-Z and the Latin-1 capitals.\<close>

definition lower_char :: "char \<Rightarrow> char" where
  "lower_char c = (let n = code c in
     if (65 \<le> n \<and> n \<le> 90) \<or> (192 \<le> n \<and> n \<le> 214) \<or> (216 \<le> n \<and> n \<le> 222)
     then char_of (n + 32) else c)"

definition lower :: "string \<Rightarrow> string" where
  "lower s = map lower_char s"

definition strip :: "string \<Rightarrow> string" where
  "strip s = rev (dropWhile is_space (rev (dropWhile is_space s)))"

text \<open>\<open>sub in s\<close> for two strings.\<close>

fun contains :: "string \<Rightarrow> string \<Rightarrow> bool" where
  "contains sub [] = (sub = [])"
| "contains sub (c # cs) = (prefix sub (c # cs) \<or> contains sub cs)"

text \<open>\<open>s.split(sep)\<close>: the pieces between the non-overlapping occurrences of
  \<open>sep\<close>, found left to right; an empty separator raises ValueError.\<close>

fun split_ne :: "string \<Rightarrow> string \<Rightarrow> string list" where
  "split_ne sep [] = [[]]"
| "split_ne sep (c # cs) =
     (if sep \<noteq> [] \<and> prefix sep (c # cs)
      then [] # split_ne sep (drop (length sep - 1) cs)
      else (case split_ne sep cs of
              [] \<Rightarrow> [[c]]
            | p # ps \<Rightarrow> (c # p) # ps))"

definition split :: "string \<Rightarrow> string \<Rightarrow> exn + string list" where
  "split s sep = (if sep = [] then Inl ValueError else Inr (split_ne sep s))"

text \<open>\<open>xs[i]\<close> for a non-negative index: IndexError out of range.\<close>

definition index :: "'a list \<Rightarrow> nat \<Rightarrow> exn + 'a" where
  "index xs i = (if i < length xs then Inr (xs ! i) else Inl IndexError)"

text \<open>
  \<open>int(s)\<close> in base 10. The whitespace that \<open>int\<close> drops at both ends is
  narrower than that of \<open>str.strip\<close>: tab, line feed, vertical tab, form feed, carriage
  return and space, and above 127 the two spaces 133 and 160; the separators 28 to 31 are
  not dropped. One sign is allowed, then come digits, where a single underscore may stand
  between two digits. More than 4300 digits (the default of
  \<open>sys.int_max_str_digits\<close>) are refused. \<open>None\<close> is the ValueError.
\<close>

definition is_int_space :: "char \<Rightarrow> bool" where
  "is_int_space c = (code c \<in> {9, 10, 11, 12, 13, 32, 133, 160})"

definition int_strip :: "string \<Rightarrow> string" where
  "int_strip s = rev (dropWhile is_int_space (rev (dropWhile is_int_space s)))"

fun parse_digits :: "nat \<Rightarrow> bool \<Rightarrow> string \<Rightarrow> nat option" where
  "parse_digits acc after_digit [] = (if after_digit then Some acc else None)"
| "parse_digits acc after_digit (c # cs) =
     (if is_digit c then parse_digits (10 * acc + (code c - 48)) True cs
      else if c = CHR ''_'' \<and> after_digit then parse_digits acc False cs
      else None)"

definition parse_limited :: "string \<Rightarrow> nat option" where
  "parse_limited ds =
     (if 4300 < length (filter is_digit ds) then None else parse_digits 0 False ds)"

definition py_int :: "string \<Rightarrow> int option" where
  "py_int s =
     (case int_strip s of
        [] \<Rightarrow> None
      | c # cs \<Rightarrow>
          if c = CHR ''-'' then map_option (\<lambda>n. - int n) (parse_limited cs)
          else if c = CHR ''+'' then map_option int (parse_limited cs)
          else map_option int (parse_limited (c # cs)))"

text \<open>\<open>str(n)\<close> of an integer, as an f-string prints it.\<close>

fun digits :: "nat \<Rightarrow> string" where
  "digits n =
     (if n < 10 then [''0123456789'' ! n]
      else digits (n div 10) @ [''0123456789'' ! (n mod 10)])"

declare digits.simps [simp del]

definition str_int :: "int \<Rightarrow> string" where
  "str_int n = (if n < 0 then CHR ''-'' # digits (nat (- n)) else digits (nat n))"

section \<open>Source Identifier Resolver\<close>

datatype source_kind = Gutenberg | InternetArchive | GoogleBooks

datatype source_id = IntId int | StrId string

fun domain :: "source_kind \<Rightarrow> string" where
  "domain Gutenberg = ''gutenberg.org''"
| "domain InternetArchive = ''archive.org''"
| "domain GoogleBooks = ''books.google.''"

definition DOWNLOADERS :: "source_kind list" where
  "DOWNLOADERS = [Gutenberg, InternetArchive, GoogleBooks]"

text \<open>
  \<open>x in url\<close> where \<open>x\<close> is a string and \<open>url\<close> whatever the input record holds:
  substring test on a string, membership in a list, key test on a dictionary, TypeError on
  the rest.
\<close>

fun py_in :: "string \<Rightarrow> json \<Rightarrow> exn + bool" where
  "py_in x (JStr s) = Inr (contains x s)"
| "py_in x (JArr vs) = Inr (JStr x \<in> set vs)"
| "py_in x (JObj kvs) = Inr (x \<in> set (map fst kvs))"
| "py_in x _ = Inl TypeError"

fun match_downloader :: "source_kind list \<Rightarrow> json \<Rightarrow> exn + source_kind option" where
  "match_downloader [] url = Inr None"
| "match_downloader (d # ds) url =
     (case py_in (domain d) url of
        Inl e \<Rightarrow> Inl e
      | Inr True \<Rightarrow> Inr (Some d)
      | Inr False \<Rightarrow> match_downloader ds url)"

subsection \<open>The three patterns of Google Books\<close>

text \<open>
  \<open>re.search(p, url)\<close> tries the start positions from the left and returns group 1 of
  the first match. Each of the three patterns is a literal followed by greedy runs of a
  negated character class, so at a start position the only match is the one with maximal
  runs.

  \<^verbatim>\<open>/books/edition/[^/]+/([^?\/]+)\<close>
\<close>

definition after_prefix :: "string \<Rightarrow> string \<Rightarrow> string option" where
  "after_prefix p s = (if prefix p s then Some (drop (length p) s) else None)"

definition edition_here :: "string \<Rightarrow> string option" where
  "edition_here s =
     (case after_prefix ''/books/edition/'' s of
        None \<Rightarrow> None
      | Some r \<Rightarrow>
          if takeWhile (\<lambda>c. c \<noteq> CHR ''/'') r = [] then None
          else (case dropWhile (\<lambda>c. c \<noteq> CHR ''/'') r of
                  [] \<Rightarrow> None
                | _ # r' \<Rightarrow>
                    (let g = takeWhile (\<lambda>c. c \<noteq> CHR ''?'' \<and> c \<noteq> CHR ''/'') r'
                     in if g = [] then None else Some g)))"

fun search_edition :: "string \<Rightarrow> string option" where
  "search_edition [] = edition_here []"
| "search_edition (c # cs) =
     (case edition_here (c # cs) of Some g \<Rightarrow> Some g | None \<Rightarrow> search_edition cs)"

text \<open>\<^verbatim>\<open>\bid=([^&]+)\<close>: \<open>\b\<close> before the word character \<open>i\<close> holds at the start
  of the string and after a character that is not a word character.\<close>

definition group_not_amp :: "string \<Rightarrow> string \<Rightarrow> string option" where
  "group_not_amp lit s =
     (case after_prefix lit s of
        None \<Rightarrow> None
      | Some r \<Rightarrow>
          (let g = takeWhile (\<lambda>c. c \<noteq> CHR ''&'') r in if g = [] then None else Some g))"

fun search_id_param :: "bool \<Rightarrow> string \<Rightarrow> string option" where
  "search_id_param boundary [] = None"
| "search_id_param boundary (c # cs) =
     (case (if boundary then group_not_amp ''id='' (c # cs) else None) of
        Some g \<Rightarrow> Some g
      | None \<Rightarrow> search_id_param (\<not> is_word c) cs)"

text \<open>\<^verbatim>\<open>/books\?id=([^&]+)\<close>\<close>

fun search_books_id :: "string \<Rightarrow> string option" where
  "search_books_id [] = None"
| "search_books_id (c # cs) =
     (case group_not_amp ''/books?id='' (c # cs) of
        Some g \<Rightarrow> Some g
      | None \<Rightarrow> search_books_id cs)"

datatype pattern = EditionPath | IdParam | BooksId

definition patterns :: "pattern list" where
  "patterns = [EditionPath, IdParam, BooksId]"

text \<open>\<open>re.search\<close> raises TypeError when the subject is not a string.\<close>

fun re_search :: "pattern \<Rightarrow> json \<Rightarrow> exn + string option" where
  "re_search EditionPath (JStr s) = Inr (search_edition s)"
| "re_search IdParam (JStr s) = Inr (search_id_param True s)"
| "re_search BooksId (JStr s) = Inr (search_books_id s)"
| "re_search p _ = Inl TypeError"

subsection \<open>get_id\<close>

text \<open>\<open>url.split(sep)[i]\<close>; a list or a dictionary has no \<open>split\<close>.\<close>

definition split_index :: "string \<Rightarrow> string \<Rightarrow> nat \<Rightarrow> exn + string" where
  "split_index s sep i = (case split s sep of Inl e \<Rightarrow> Inl e | Inr ps \<Rightarrow> index ps i)"

fun url_split_index :: "json \<Rightarrow> string \<Rightarrow> nat \<Rightarrow> exn + string" where
  "url_split_index (JStr s) sep i = split_index s sep i"
| "url_split_index _ sep i = Inl AttributeError"

definition gutenberg_get_id :: "json \<Rightarrow> exn + source_id option" where
  "gutenberg_get_id url =
     (case py_in ''/ebooks/'' url of
        Inl e \<Rightarrow> Inl e
      | Inr False \<Rightarrow> Inr None
      | Inr True \<Rightarrow>
          (case url_split_index url ''/ebooks/'' 1 of
             Inl e \<Rightarrow> Inl e
           | Inr rest \<Rightarrow>
               (case split_index rest ''?'' 0 of
                  Inl e \<Rightarrow> Inl e
                | Inr t \<Rightarrow>
                    (case py_int t of
                       None \<Rightarrow> Inr None
                     | Some n \<Rightarrow> Inr (Some (IntId n))))))"

definition ia_get_id :: "json \<Rightarrow> exn + source_id option" where
  "ia_get_id url =
     (case py_in ''/details/'' url of
        Inl e \<Rightarrow> Inl e
      | Inr False \<Rightarrow> Inr None
      | Inr True \<Rightarrow>
          (case url_split_index url ''/details/'' 1 of
             Inl e \<Rightarrow> Inl e
           | Inr rest \<Rightarrow>
               (case split_index rest ''/'' 0 of
                  Inl e \<Rightarrow> Inl e
                | Inr t \<Rightarrow> Inr (Some (StrId t)))))"

fun gb_get_id_from :: "pattern list \<Rightarrow> json \<Rightarrow> exn + source_id option" where
  "gb_get_id_from [] url = Inr None"
| "gb_get_id_from (p # ps) url =
     (case re_search p url of
        Inl e \<Rightarrow> Inl e
      | Inr (Some g) \<Rightarrow> Inr (Some (StrId g))
      | Inr None \<Rightarrow> gb_get_id_from ps url)"

definition gb_get_id :: "json \<Rightarrow> exn + source_id option" where
  "gb_get_id url = gb_get_id_from patterns url"

fun get_id :: "source_kind \<Rightarrow> json \<Rightarrow> exn + source_id option" where
  "get_id Gutenberg url = gutenberg_get_id url"
| "get_id InternetArchive url = ia_get_id url"
| "get_id GoogleBooks url = gb_get_id url"

text \<open>Lines 318 to 323 of \<open>process_input\<close>: the downloader matched to the URL and the
  identifier it reads from it.\<close>

definition resolve :: "json \<Rightarrow> exn + (source_kind \<times> source_id) option" where
  "resolve url =
     (case match_downloader DOWNLOADERS url of
        Inl e \<Rightarrow> Inl e
      | Inr None \<Rightarrow> Inr None
      | Inr (Some k) \<Rightarrow>
          (case get_id k url of
             Inl e \<Rightarrow> Inl e
           | Inr None \<Rightarrow> Inr None
           | Inr (Some i) \<Rightarrow> Inr (Some (k, i))))"

section \<open>The outside world\<close>

text \<open>
  An HTTP response carries its status, its decoded text (\<open>r.text\<close>), its bytes
  (\<open>r.content\<close>) and what \<open>r.json()\<close> gives (\<open>None\<close> when it raises).
  \<open>SESSION.get\<close> returns a response or raises; \<open>extract_pdf\<close> tells a
  \<open>requests.RequestException\<close> from any other exception.
\<close>

record response =
  status_code :: int
  body_text :: string
  body :: string
  json_body :: "json option"

datatype http_result = Response response | RequestException | OtherException

text \<open>
  The capabilities of the host: the HTTP session, pdfminer's \<open>extract_text\<close>
  (\<open>None\<close> when it raises), \<open>shutil.which\<close>, the ocrmypdf subprocess run with
  \<open>check=True\<close> (its standard output, \<open>None\<close> when \<open>subprocess.run\<close>
  raises), the API key of the command line and \<open>urllib.parse.quote\<close>.
\<close>

record env =
  session_get :: "string \<Rightarrow> http_result"
  extract_text :: "string \<Rightarrow> string option"
  which :: "string \<Rightarrow> string option"
  ocrmypdf :: "string \<Rightarrow> string option"
  api_key :: "string option"
  quote :: "string \<Rightarrow> string"

text \<open>What the program does to the world, in order: requests, extractor and OCR runs,
  log lines and pauses.\<close>

datatype level = Info | Warning | Error

datatype message =
    FailedToFetch string
  | FailedToFetchJson string
  | PdfminerFailed
  | TesseractNotFound
  | GhostscriptNotFound
  | OcrProducedNoText
  | OcrFailed
  | NoDownloadablePdf
  | NoDownloadLink
  | GooglePdfStatus int nat
  | LikelyCaptcha
  | PdfDownloadError
  | Downloading source_id string
  | StoredSuccessfully source_id
  | FailedToStore source_id
  | Skipping source_id
  | Progress nat nat

datatype event =
    Get string
  | ExtractText string
  | Ocr string
  | Log level message
  | Sleep nat

text \<open>The truth value of a response is \<open>r.ok\<close>: no status from 400 to 599.\<close>

definition response_ok :: "response \<Rightarrow> bool" where
  "response_ok r = (\<not> (400 \<le> status_code r \<and> status_code r < 600))"

section \<open>Fetch Strategy\<close>

fun download_text :: "env \<Rightarrow> string list \<Rightarrow> event list \<times> (response \<times> string) option" where
  "download_text w [] = ([], None)"
| "download_text w (url # urls) =
     (case session_get w url of
        Response r \<Rightarrow>
          if status_code r = 200 then ([Get url], Some (r, url))
          else (case download_text w urls of (evs, res) \<Rightarrow> (Get url # evs, res))
      | _ \<Rightarrow>
          (case download_text w urls of
             (evs, res) \<Rightarrow> (Get url # Log Warning (FailedToFetch url) # evs, res)))"

definition get_json :: "env \<Rightarrow> string \<Rightarrow> event list \<times> (json \<times> string) option" where
  "get_json w url =
     (case session_get w url of
        Response r \<Rightarrow>
          if status_code r = 200
          then (case json_body r of
                  Some j \<Rightarrow> ([Get url], Some (j, url))
                | None \<Rightarrow> ([Get url, Log Warning (FailedToFetchJson url)], None))
          else ([Get url], None)
      | _ \<Rightarrow> ([Get url, Log Warning (FailedToFetchJson url)], None))"

fun id_str :: "source_id \<Rightarrow> string" where
  "id_str (IntId n) = str_int n"
| "id_str (StrId s) = s"

definition gutenberg_urls :: "source_id \<Rightarrow> string list" where
  "gutenberg_urls i =
     [''https://www.gutenberg.org/files/'' @ id_str i @ ''/'' @ id_str i @ ''-0.txt'',
      ''https://www.gutenberg.org/files/'' @ id_str i @ ''/'' @ id_str i @ ''.txt'',
      ''https://www.gutenberg.org/ebooks/'' @ id_str i @ ''.txt.utf-8'']"

definition ia_urls :: "source_id \<Rightarrow> string list" where
  "ia_urls i =
     [''https://archive.org/download/'' @ id_str i @ ''/'' @ id_str i @ ''_djvu.txt'',
      ''https://archive.org/download/'' @ id_str i @ ''/'' @ id_str i @ ''.txt'']"

text \<open>The common tail of the two plain-text \<open>download\<close> methods:
  \<^verbatim>\<open>r, url = self._download_text(urls); if r and r.text.strip(): return r.text, url\<close>.\<close>

definition text_download :: "env \<Rightarrow> string list \<Rightarrow> event list \<times> string option \<times> string option" where
  "text_download w urls =
     (case download_text w urls of
        (evs, None) \<Rightarrow> (evs, None, None)
      | (evs, Some (r, url)) \<Rightarrow>
          if response_ok r \<and> strip (body_text r) \<noteq> []
          then (evs, Some (body_text r), Some url)
          else (evs, None, None))"

section \<open>Text Extraction Pipeline\<close>

definition extract_text_from_pdf :: "env \<Rightarrow> response \<Rightarrow> event list \<times> string option" where
  "extract_text_from_pdf w pdf =
     (case extract_text w (body pdf) of
        None \<Rightarrow> ([ExtractText (body pdf), Log Error PdfminerFailed], None)
      | Some t \<Rightarrow>
          if t \<noteq> [] \<and> strip t \<noteq> [] then ([ExtractText (body pdf)], Some t)
          else ([ExtractText (body pdf)], None))"

text \<open>\<open>a or b\<close> on two results of \<open>shutil.which\<close>.\<close>

definition which_or :: "string option \<Rightarrow> string option \<Rightarrow> string option" where
  "which_or a b = (case a of None \<Rightarrow> b | Some p \<Rightarrow> if p = [] then b else a)"

definition extract_ocr_from_pdf :: "env \<Rightarrow> response \<Rightarrow> event list \<times> string option" where
  "extract_ocr_from_pdf w pdf =
     (if which w ''tesseract'' = None then ([Log Info TesseractNotFound], None)
      else if which_or (which w ''gswin64c'') (which w ''gs'') = None
      then ([Log Info GhostscriptNotFound], None)
      else
        (case ocrmypdf w (body pdf) of
           None \<Rightarrow> ([Ocr (body pdf), Log Error OcrFailed], None)
         | Some out \<Rightarrow>
             (case extract_text w out of
                None \<Rightarrow> ([Ocr (body pdf), ExtractText out, Log Error OcrFailed], None)
              | Some t \<Rightarrow>
                  if t \<noteq> [] \<and> strip t \<noteq> [] then ([Ocr (body pdf), ExtractText out], Some t)
                  else ([Ocr (body pdf), ExtractText out, Log Warning OcrProducedNoText], None))))"

definition convert_pdf_to_text :: "env \<Rightarrow> response \<Rightarrow> event list \<times> string option" where
  "convert_pdf_to_text w pdf =
     (case extract_text_from_pdf w pdf of
        (evs, Some t) \<Rightarrow> (evs, Some t)
      | (evs, None) \<Rightarrow>
          (case extract_ocr_from_pdf w pdf of (evs', r) \<Rightarrow> (evs @ evs', r)))"

text \<open>
  \<open>extract_pdf\<close>. A download link that is not a string never reaches a server: requests
  rejects it with a subclass of RequestException, which the function catches.
\<close>

definition pdf_get :: "env \<Rightarrow> json \<Rightarrow> event list \<times> http_result" where
  "pdf_get w link =
     (case link of JStr u \<Rightarrow> ([Get u], session_get w u) | _ \<Rightarrow> ([], RequestException))"

fun link_str :: "json \<Rightarrow> string option" where
  "link_str (JStr u) = Some u"
| "link_str _ = None"

definition extract_pdf :: "env \<Rightarrow> json \<Rightarrow> event list \<times> (exn + string option \<times> string option)" where
  "extract_pdf w meta =
     (case dict_get meta ''accessInfo'' of
        Inl e \<Rightarrow> ([], Inl e)
      | Inr access \<Rightarrow>
     (case dict_get (py_or access (JObj [])) ''pdf'' of
        Inl e \<Rightarrow> ([], Inl e)
      | Inr p \<Rightarrow>
     (let book_meta = py_or p (JObj []) in
      case dict_get book_meta ''isAvailable'' of
        Inl e \<Rightarrow> ([], Inl e)
      | Inr available \<Rightarrow>
          if \<not> truthy available then ([Log Info NoDownloadablePdf], Inr (None, None))
          else
     (case dict_get book_meta ''downloadLink'' of
        Inl e \<Rightarrow> ([], Inl e)
      | Inr download_url \<Rightarrow>
          if \<not> truthy download_url then ([Log Warning NoDownloadLink], Inr (None, None))
          else
            (case pdf_get w download_url of
               (evs, RequestException) \<Rightarrow>
                 (evs @ [Log Error PdfDownloadError], Inr (None, None))
             | (evs, OtherException) \<Rightarrow> (evs, Inl TransportError)
             | (evs, Response pdf) \<Rightarrow>
                 if status_code pdf \<noteq> 200 \<or> length (body pdf) < 50000
                 then (evs @ [Log Info (GooglePdfStatus (status_code pdf) (length (body pdf))),
                              Log Warning LikelyCaptcha], Inr (None, None))
                 else
                   (case convert_pdf_to_text w pdf of
                      (evs', t) \<Rightarrow>
                        (evs @ Log Info (GooglePdfStatus (status_code pdf) (length (body pdf))) # evs',
                         Inr (t, link_str download_url))))))))"

subsection \<open>The downloaders\<close>

text \<open>
  A downloader object: its class, \<open>self.id\<close> and \<open>self.book\<close>, the tuple
  \<open>(source_id, title, author, category)\<close> that \<open>process_input\<close> assigns.
\<close>

record downloader =
  kind :: source_kind
  src_id :: "source_id option"
  book :: "(source_id \<times> json \<times> json \<times> json) option"

fun name :: "source_kind \<Rightarrow> string" where
  "name Gutenberg = ''gutenberg_id''"
| "name InternetArchive = ''ia_title_id''"
| "name GoogleBooks = ''gb_title_id''"

definition volume_url :: "env \<Rightarrow> source_id \<Rightarrow> string" where
  "volume_url w i =
     (let url = ''https://www.googleapis.com/books/v1/volumes/'' @ id_str i in
      case api_key w of
        None \<Rightarrow> url
      | Some key \<Rightarrow> if key = [] then url else url @ ''?key='' @ quote w key)"

definition gb_download :: "env \<Rightarrow> source_id \<Rightarrow> event list \<times> (exn + string option \<times> string option)" where
  "gb_download w i =
     (case get_json w (volume_url w i) of
        (evs, None) \<Rightarrow> (evs, Inr (None, None))
      | (evs, Some (meta, _)) \<Rightarrow>
          if \<not> truthy meta then (evs, Inr (None, None))
          else (case extract_pdf w meta of (evs', r) \<Rightarrow> (evs @ evs', r)))"

definition download :: "env \<Rightarrow> downloader \<Rightarrow> event list \<times> (exn + string option \<times> string option)" where
  "download w d =
     (case src_id d of
        None \<Rightarrow> ([], Inr (None, None))
      | Some i \<Rightarrow>
          (case kind d of
             Gutenberg \<Rightarrow> (case text_download w (gutenberg_urls i) of (evs, r) \<Rightarrow> (evs, Inr r))
           | InternetArchive \<Rightarrow> (case text_download w (ia_urls i) of (evs, r) \<Rightarrow> (evs, Inr r))
           | GoogleBooks \<Rightarrow> gb_download w i))"

section \<open>Record Store\<close>

text \<open>
  The table \<open>books\<close> is the list of its rows in insertion order. A row holds SQLite
  values; \<open>rid\<close> is the column \<open>id\<close>. The three identifier columns are declared
  \<open>UNIQUE\<close>; the program binds an integer to \<open>gutenberg_id\<close> and a string to the
  other two, which their affinities store unchanged. The five remaining columns have
  \<open>TEXT\<close> affinity, which stores a number as its decimal text.
\<close>

datatype sqlval = SqlNull | SqlInt int | SqlText string

record row =
  rid :: int
  gutenberg_id :: sqlval
  ia_title_id :: sqlval
  gb_title_id :: sqlval
  author :: sqlval
  title :: sqlval
  category :: sqlval
  source_url :: sqlval
  content :: sqlval

text \<open>Binding a Python value to a \<open>?\<close>: an integer outside 64 bits raises
  OverflowError, a list or a dictionary is refused.\<close>

fun bind :: "json \<Rightarrow> exn + sqlval" where
  "bind JNull = Inr SqlNull"
| "bind (JBool b) = Inr (SqlInt (if b then 1 else 0))"
| "bind (JInt n) =
     (if - (2 ^ 63) \<le> n \<and> n < 2 ^ 63 then Inr (SqlInt n) else Inl OverflowError)"
| "bind (JStr s) = Inr (SqlText s)"
| "bind (JArr vs) = Inl BindingError"
| "bind (JObj kvs) = Inl BindingError"

fun id_json :: "source_id \<Rightarrow> json" where
  "id_json (IntId n) = JInt n"
| "id_json (StrId s) = JStr s"

fun text_affinity :: "sqlval \<Rightarrow> sqlval" where
  "text_affinity (SqlInt n) = SqlText (str_int n)"
| "text_affinity v = v"

definition bind_text :: "json \<Rightarrow> exn + sqlval" where
  "bind_text v = (case bind v of Inl e \<Rightarrow> Inl e | Inr x \<Rightarrow> Inr (text_affinity x))"

fun id_col :: "source_kind \<Rightarrow> row \<Rightarrow> sqlval" where
  "id_col Gutenberg r = gutenberg_id r"
| "id_col InternetArchive r = ia_title_id r"
| "id_col GoogleBooks r = gb_title_id r"

text \<open>\<^verbatim>\<open>SELECT 1 FROM books WHERE {name} = ?\<close> followed by \<open>fetchone()\<close>; a
  comparison with NULL selects nothing.\<close>

definition select_exists :: "source_kind \<Rightarrow> source_id \<Rightarrow> row list \<Rightarrow> exn + bool" where
  "select_exists k i rows =
     (case bind (id_json i) of
        Inl e \<Rightarrow> Inl e
      | Inr v \<Rightarrow> Inr (v \<noteq> SqlNull \<and> list_ex (\<lambda>r. id_col k r = v) rows))"

text \<open>A new row gets the next \<open>id\<close>: one more than the largest, 1 in an empty table.\<close>

definition next_rid :: "row list \<Rightarrow> int" where
  "next_rid rows = (case rows of [] \<Rightarrow> 1 | r # rs \<Rightarrow> fold (\<lambda>r m. max (rid r) m) rs (rid r) + 1)"

definition new_row ::
  "source_kind \<Rightarrow> sqlval \<Rightarrow> sqlval \<Rightarrow> sqlval \<Rightarrow> sqlval \<Rightarrow> sqlval \<Rightarrow> sqlval \<Rightarrow> row list \<Rightarrow> row" where
  "new_row k v a t c u x rows =
     \<lparr>rid = next_rid rows,
      gutenberg_id = (if k = Gutenberg then v else SqlNull),
      ia_title_id = (if k = InternetArchive then v else SqlNull),
      gb_title_id = (if k = GoogleBooks then v else SqlNull),
      author = a, title = t, category = c, source_url = u, content = x\<rparr>"

text \<open>
  \<^verbatim>\<open>INSERT INTO books ({name}, author, title, category, source_url, content)
  VALUES (?,?,?,?,?,?) ON CONFLICT({name}) DO UPDATE SET title=excluded.title,
  category=excluded.category, source_url=excluded.source_url, content=excluded.content,
  author=excluded.author\<close>
\<close>

definition upsert ::
  "source_kind \<Rightarrow> sqlval \<Rightarrow> sqlval \<Rightarrow> sqlval \<Rightarrow> sqlval \<Rightarrow> sqlval \<Rightarrow> sqlval \<Rightarrow> row list \<Rightarrow> row list" where
  "upsert k v a t c u x rows =
     (if v \<noteq> SqlNull \<and> list_ex (\<lambda>r. id_col k r = v) rows
      then map (\<lambda>r. if id_col k r = v
                     then r\<lparr>title := t, category := c, source_url := u, content := x, author := a\<rparr>
                     else r) rows
      else rows @ [new_row k v a t c u x rows])"

text \<open>\<open>init_database\<close>: \<open>CREATE TABLE IF NOT EXISTS\<close> makes an empty table in a new
  file and keeps the table of an old one.\<close>

definition init_database :: "row list option \<Rightarrow> row list" where
  "init_database db = (case db of None \<Rightarrow> [] | Some rows \<Rightarrow> rows)"

fun opt_json :: "string option \<Rightarrow> json" where
  "opt_json None = JNull"
| "opt_json (Some s) = JStr s"

text \<open>The statement of \<open>store_in_db\<close> with its six parameters bound in order.\<close>

definition insert_book ::
  "source_kind \<Rightarrow> source_id \<Rightarrow> json \<Rightarrow> json \<Rightarrow> json \<Rightarrow> string option \<Rightarrow> string
     \<Rightarrow> row list \<Rightarrow> exn + row list" where
  "insert_book k title_id author_v user_title category_v url txt rows =
     (case bind (id_json title_id) of Inl e \<Rightarrow> Inl e | Inr v \<Rightarrow>
      case bind_text author_v of Inl e \<Rightarrow> Inl e | Inr a \<Rightarrow>
      case bind_text user_title of Inl e \<Rightarrow> Inl e | Inr t \<Rightarrow>
      case bind_text category_v of Inl e \<Rightarrow> Inl e | Inr c \<Rightarrow>
      case bind_text (opt_json url) of Inl e \<Rightarrow> Inl e | Inr u \<Rightarrow>
      Inr (upsert k v a t c u (SqlText txt) rows))"

definition store_in_db :: "env \<Rightarrow> downloader \<Rightarrow> row list \<Rightarrow> event list \<times> exn option \<times> row list" where
  "store_in_db w d rows =
     (case book d of
        None \<Rightarrow> ([], Some TypeError, rows)
      | Some (title_id, user_title, author_v, category_v) \<Rightarrow>
          (case download w d of
             (evs, Inl e) \<Rightarrow>
               (Log Info (Downloading title_id (domain (kind d))) # evs, Some e, rows)
           | (evs, Inr (txt, url)) \<Rightarrow>
               (case txt of
                  Some t \<Rightarrow>
                    if t \<noteq> [] then
                      (case insert_book (kind d) title_id author_v user_title category_v url t rows of
                         Inl e \<Rightarrow>
                           (Log Info (Downloading title_id (domain (kind d))) # evs, Some e, rows)
                       | Inr rows' \<Rightarrow>
                           (Log Info (Downloading title_id (domain (kind d))) # evs
                              @ [Log Info (StoredSuccessfully title_id)], None, rows'))
                    else
                      (Log Info (Downloading title_id (domain (kind d))) # evs
                         @ [Log Warning (FailedToStore title_id)], None, rows)
                | None \<Rightarrow>
                    (Log Info (Downloading title_id (domain (kind d))) # evs
                       @ [Log Warning (FailedToStore title_id)], None, rows))))"

section \<open>Batch Coordinator\<close>

text \<open>\<^verbatim>\<open>lower = {k.lower(): v for k, v in item.items()}\<close> and \<open>lower.get(key)\<close>: a
  later key overwrites an earlier one with the same lower-case form.\<close>

definition lower_get :: "(string \<times> json) list \<Rightarrow> string \<Rightarrow> json" where
  "lower_get kvs key =
     (case map_of (rev (map (\<lambda>(k, v). (lower k, v)) kvs)) key of
        None \<Rightarrow> JNull
      | Some v \<Rightarrow> v)"

text \<open>One turn of the loop of \<open>process_input\<close>. The exception, when there is one, ends
  the loop and the program.\<close>

definition process_item ::
  "env \<Rightarrow> nat \<Rightarrow> nat \<Rightarrow> json \<Rightarrow> row list \<Rightarrow> event list \<times> exn option \<times> row list" where
  "process_item w n_total idx item rows =
     (case item of
        JObj kvs \<Rightarrow>
          (let url = lower_get kvs ''url'';
               book_title = lower_get kvs ''title'';
               author_v = py_or (lower_get kvs ''author'') (JStr ''Unknown'');
               category_v = py_or (lower_get kvs ''category'') (JStr ''Uncategorized'')
           in
             if \<not> truthy url \<or> \<not> truthy book_title then ([], None, rows)
             else
               (case resolve url of
                  Inl e \<Rightarrow> ([], Some e, rows)
                | Inr None \<Rightarrow> ([], None, rows)
                | Inr (Some (k, source_id)) \<Rightarrow>
                    (case select_exists k source_id rows of
                       Inl e \<Rightarrow> ([], Some e, rows)
                     | Inr True \<Rightarrow> ([Log Info (Skipping source_id)], None, rows)
                     | Inr False \<Rightarrow>
                         (case store_in_db w
                                 \<lparr>kind = k, src_id = Some source_id,
                                  book = Some (source_id, book_title, author_v, category_v)\<rparr> rows of
                            (evs, Some e, rows') \<Rightarrow>
                              (Log Info (Progress idx n_total) # evs, Some e, rows')
                          | (evs, None, rows') \<Rightarrow>
                              (Log Info (Progress idx n_total) # evs @ [Sleep 1], None, rows')))))
      | _ \<Rightarrow> ([], Some AttributeError, rows))"

fun process_items ::
  "env \<Rightarrow> nat \<Rightarrow> nat \<Rightarrow> json list \<Rightarrow> row list \<Rightarrow> event list \<times> exn option \<times> row list" where
  "process_items w n_total idx [] rows = ([], None, rows)"
| "process_items w n_total idx (item # items) rows =
     (case process_item w n_total idx item rows of
        (evs, Some e, rows') \<Rightarrow> (evs, Some e, rows')
      | (evs, None, rows') \<Rightarrow>
          (case process_items w n_total (Suc idx) items rows' of
             (evs', r, rows'') \<Rightarrow> (evs @ evs', r, rows'')))"

text \<open>\<open>len(data)\<close> and the iteration over \<open>data\<close>: a list gives its elements, a
  dictionary its keys, a string its characters; the rest has no length.\<close>

fun elements :: "json \<Rightarrow> exn + json list" where
  "elements (JArr vs) = Inr vs"
| "elements (JObj kvs) = Inr (map (\<lambda>(k, v). JStr k) kvs)"
| "elements (JStr s) = Inr (map (\<lambda>c. JStr [c]) s)"
| "elements _ = Inl TypeError"

definition process_input :: "env \<Rightarrow> json \<Rightarrow> row list \<Rightarrow> event list \<times> exn option \<times> row list" where
  "process_input w data rows =
     (case elements data of
        Inl e \<Rightarrow> ([], Some e, rows)
      | Inr items \<Rightarrow> process_items w (length items) 1 items rows)"

section \<open>The specification's notions\<close>

subsection \<open>The resolver\<close>

text \<open>
  The resolver in the words of the specification, written without the functions of the
  source model. \<open>following seg s\<close> is the text after the first \<open>seg\<close> in
  \<open>s\<close>, \<open>before sep s\<close> the text in front of the first \<open>sep\<close> (all of
  \<open>s\<close> when there is none).
\<close>

fun following :: "string \<Rightarrow> string \<Rightarrow> string option" where
  "following seg [] = (if seg = [] then Some [] else None)"
| "following seg (c # cs) =
     (if prefix seg (c # cs) then Some (drop (length seg) (c # cs)) else following seg cs)"

fun before :: "string \<Rightarrow> string \<Rightarrow> string" where
  "before sep [] = []"
| "before sep (c # cs) = (if prefix sep (c # cs) then [] else c # before sep cs)"

text \<open>
  The text of an integer, as the language of the source reads one: whitespace at both
  ends (tab to carriage return, space, and the spaces 133 and 160) does not count; there
  may be one sign; the rest is digits and underscores that starts and ends with a digit,
  has no two underscores in a row and at most 4300 digits. Its value is that of its
  digits.
\<close>

definition int_space :: "char \<Rightarrow> bool" where
  "int_space c = (code c \<in> {9..13} \<union> {32, 133, 160})"

definition trim :: "string \<Rightarrow> string" where
  "trim t =
     (let u = dropWhile int_space t
      in take (length u - length (takeWhile int_space (rev u))) u)"

definition digits_ok :: "string \<Rightarrow> bool" where
  "digits_ok b =
     (b \<noteq> [] \<and> list_all (\<lambda>c. is_digit c \<or> c = CHR ''_'') b \<and>
      is_digit (hd b) \<and> is_digit (last b) \<and> \<not> sublist ''__'' b \<and>
      length (filter is_digit b) \<le> 4300)"

definition digits_value :: "string \<Rightarrow> nat" where
  "digits_value b = foldl (\<lambda>a c. 10 * a + (code c - 48)) 0 (filter is_digit b)"

definition int_of_text :: "string \<Rightarrow> int option" where
  "int_of_text t =
     (case trim t of
        [] \<Rightarrow> None
      | c # b \<Rightarrow>
          if c = CHR ''-'' then (if digits_ok b then Some (- int (digits_value b)) else None)
          else if c = CHR ''+'' then (if digits_ok b then Some (int (digits_value b)) else None)
          else if digits_ok (c # b) then Some (int (digits_value (c # b))) else None)"

text \<open>
  The three URL shapes of Google Books. \<open>shape_at p s i\<close> is the value that shape
  \<open>p\<close> captures when it is found at position \<open>i\<close> of \<open>s\<close>:
  \<^item> the edition path: \<^verbatim>\<open>/books/edition/\<close>, a title part without slash that is
    not empty, a slash, and the value, which runs up to the next \<open>?\<close> or slash and is
    not empty;
  \<^item> the query parameter: \<^verbatim>\<open>id=\<close> at the start of the URL or after a character
    that is no letter, digit or underscore, and the value, which runs up to the next
    \<open>&\<close> and is not empty;
  \<^item> \<^verbatim>\<open>/books?id=\<close> and the value, which runs up to the next \<open>&\<close> and is not
    empty.
  A shape captures at the leftmost position where it is found.
\<close>

definition occurs_at :: "string \<Rightarrow> string \<Rightarrow> nat \<Rightarrow> bool" where
  "occurs_at lit s i = (take (length lit) (drop i s) = lit)"

definition run_from :: "(char \<Rightarrow> bool) \<Rightarrow> string \<Rightarrow> nat \<Rightarrow> string" where
  "run_from P s i = takeWhile P (drop i s)"

definition word_boundary :: "string \<Rightarrow> nat \<Rightarrow> bool" where
  "word_boundary s i = (i = 0 \<or> \<not> is_word (s ! (i - 1)))"

fun shape_at :: "pattern \<Rightarrow> string \<Rightarrow> nat \<Rightarrow> string option" where
  "shape_at EditionPath s i =
     (let j = i + length ''/books/edition/'';
          title_part = run_from (\<lambda>c. c \<noteq> CHR ''/'') s j;
          g = run_from (\<lambda>c. c \<noteq> CHR ''?'' \<and> c \<noteq> CHR ''/'') s (j + length title_part + 1)
      in if occurs_at ''/books/edition/'' s i \<and> title_part \<noteq> [] \<and>
            j + length title_part < length s \<and> g \<noteq> []
         then Some g else None)"
| "shape_at IdParam s i =
     (let g = run_from (\<lambda>c. c \<noteq> CHR ''&'') s (i + length ''id='')
      in if word_boundary s i \<and> occurs_at ''id='' s i \<and> g \<noteq> [] then Some g else None)"
| "shape_at BooksId s i =
     (let g = run_from (\<lambda>c. c \<noteq> CHR ''&'') s (i + length ''/books?id='')
      in if occurs_at ''/books?id='' s i \<and> g \<noteq> [] then Some g else None)"

definition shape_capture :: "pattern \<Rightarrow> string \<Rightarrow> string option" where
  "shape_capture p s =
     (case find (\<lambda>i. shape_at p s i \<noteq> None) [0..<length s] of
        None \<Rightarrow> None
      | Some i \<Rightarrow> shape_at p s i)"

text \<open>
  The identity of a URL. The source is the first registered one whose domain token occurs
  in the URL. Gutenberg: the integer that follows the first \<open>/ebooks/\<close>, up to a query
  string (or a second \<open>/ebooks/\<close>, where the split of the source ends the text as
  well). Internet Archive: the path segment that follows the first \<open>/details/\<close>.
  Google Books: the value of the first of the three shapes that the URL has. A URL has the
  identifier pattern of a source when this gives an identifier.
\<close>

definition spec_identity :: "source_kind \<Rightarrow> string \<Rightarrow> source_id option" where
  "spec_identity k s =
     (case k of
        Gutenberg \<Rightarrow>
          (case following ''/ebooks/'' s of
             None \<Rightarrow> None
           | Some r \<Rightarrow> map_option IntId (int_of_text (before ''?'' (before ''/ebooks/'' r))))
      | InternetArchive \<Rightarrow>
          (case following ''/details/'' s of
             None \<Rightarrow> None
           | Some r \<Rightarrow> Some (StrId (before ''/'' (before ''/details/'' r))))
      | GoogleBooks \<Rightarrow>
          (case find (\<lambda>p. shape_capture p s \<noteq> None) [EditionPath, IdParam, BooksId] of
             None \<Rightarrow> None
           | Some p \<Rightarrow> map_option StrId (shape_capture p s)))"

definition spec_source :: "string \<Rightarrow> source_kind option" where
  "spec_source s = find (\<lambda>k. sublist (domain k) s) [Gutenberg, InternetArchive, GoogleBooks]"

definition spec_resolve :: "string \<Rightarrow> (source_kind \<times> source_id) option" where
  "spec_resolve s =
     (case spec_source s of
        None \<Rightarrow> None
      | Some k \<Rightarrow> map_option (Pair k) (spec_identity k s))"

definition id_pattern :: "source_kind \<Rightarrow> string \<Rightarrow> bool" where
  "id_pattern k s = (spec_identity k s \<noteq> None)"

subsection \<open>Notions of the fetch strategy\<close>

text \<open>
  The fetch of the plain-text sources in the words of the specification: the first
  candidate whose response has status 200 and a body that is not empty once trimmed.
\<close>

definition text_at :: "env \<Rightarrow> string \<Rightarrow> string" where
  "text_at w url = (case session_get w url of Response r \<Rightarrow> body_text r | _ \<Rightarrow> [])"

definition acceptable :: "env \<Rightarrow> string \<Rightarrow> bool" where
  "acceptable w url =
     (case session_get w url of
        Response r \<Rightarrow> status_code r = 200 \<and> strip (body_text r) \<noteq> []
      | _ \<Rightarrow> False)"

definition first_acceptable :: "env \<Rightarrow> string list \<Rightarrow> string option \<times> string option" where
  "first_acceptable w urls =
     (case find (acceptable w) urls of
        None \<Rightarrow> (None, None)
      | Some u \<Rightarrow> (Some (text_at w u), Some u))"

text \<open>
  What the source does instead: the first candidate whose response has status 200 decides.
  Its text is the result when it is not empty once trimmed, and there is no result
  otherwise. \<open>tried\<close> lists the candidates that get a request: those in front of the
  first status 200, and that one.
\<close>

definition status_200 :: "env \<Rightarrow> string \<Rightarrow> bool" where
  "status_200 w url = (case session_get w url of Response r \<Rightarrow> status_code r = 200 | _ \<Rightarrow> False)"

definition first_status_200 :: "env \<Rightarrow> string list \<Rightarrow> string option \<times> string option" where
  "first_status_200 w urls =
     (case find (status_200 w) urls of
        None \<Rightarrow> (None, None)
      | Some u \<Rightarrow> if strip (text_at w u) \<noteq> [] then (Some (text_at w u), Some u) else (None, None))"

definition tried :: "env \<Rightarrow> string list \<Rightarrow> string list" where
  "tried w urls =
     takeWhile (\<lambda>u. \<not> status_200 w u) urls
       @ (case find (status_200 w) urls of None \<Rightarrow> [] | Some u \<Rightarrow> [u])"

text \<open>The URLs requested in a trace, in order.\<close>

fun requested :: "event list \<Rightarrow> string list" where
  "requested [] = []"
| "requested (Get u # evs) = u # requested evs"
| "requested (e # evs) = requested evs"

fun candidates :: "source_kind \<Rightarrow> source_id \<Rightarrow> string list" where
  "candidates Gutenberg i = gutenberg_urls i"
| "candidates InternetArchive i = ia_urls i"
| "candidates GoogleBooks i = []"

subsection \<open>Notions of the extraction pipeline\<close>

text \<open>
  The OCR runs and the structural extractions of a trace, with their inputs.
  \<open>has_text\<close>: structural extraction succeeds and gives more than whitespace.
  \<open>ocr_capable\<close>: the OCR engine and the rasterizer are on the host
  (\<open>shutil.which\<close> gives a path, which is never the empty string).
\<close>

fun ocr_runs :: "event list \<Rightarrow> string list" where
  "ocr_runs [] = []"
| "ocr_runs (Ocr b # evs) = b # ocr_runs evs"
| "ocr_runs (e # evs) = ocr_runs evs"

fun extracted :: "event list \<Rightarrow> string list" where
  "extracted [] = []"
| "extracted (ExtractText b # evs) = b # extracted evs"
| "extracted (e # evs) = extracted evs"

definition has_text :: "env \<Rightarrow> string \<Rightarrow> bool" where
  "has_text w b = (case extract_text w b of None \<Rightarrow> False | Some t \<Rightarrow> strip t \<noteq> [])"

definition ocr_capable :: "env \<Rightarrow> bool" where
  "ocr_capable w =
     (which w ''tesseract'' \<noteq> None \<and>
      ((which w ''gswin64c'' \<noteq> None \<and> which w ''gswin64c'' \<noteq> Some []) \<or> which w ''gs'' \<noteq> None))"

subsection \<open>Notions of the coordinator\<close>

text \<open>
  \<open>without key kvs\<close> is the input record \<open>kvs\<close> with every key removed that
  reads \<open>key\<close> in lower case. \<open>request item\<close> is what \<open>process_input\<close> makes
  of an input record before it looks at the store: an exception, nothing (the record is
  dropped), or the source, the identifier and the title, author and category to store.
  \<open>downloader_of\<close> is the downloader object that \<open>process_input\<close> hands to
  \<open>store_in_db\<close>.
\<close>

definition without :: "string \<Rightarrow> (string \<times> json) list \<Rightarrow> (string \<times> json) list" where
  "without key kvs = filter (\<lambda>(k, v). lower k \<noteq> key) kvs"

definition request :: "json \<Rightarrow> exn + (source_kind \<times> source_id \<times> json \<times> json \<times> json) option" where
  "request item =
     (case item of
        JObj kvs \<Rightarrow>
          if \<not> truthy (lower_get kvs ''url'') \<or> \<not> truthy (lower_get kvs ''title'') then Inr None
          else
            (case resolve (lower_get kvs ''url'') of
               Inl e \<Rightarrow> Inl e
             | Inr None \<Rightarrow> Inr None
             | Inr (Some (k, i)) \<Rightarrow>
                 Inr (Some (k, i, lower_get kvs ''title'',
                   py_or (lower_get kvs ''author'') (JStr ''Unknown''),
                   py_or (lower_get kvs ''category'') (JStr ''Uncategorized''))))
      | _ \<Rightarrow> Inl AttributeError)"

definition downloader_of :: "source_kind \<Rightarrow> source_id \<Rightarrow> json \<Rightarrow> json \<Rightarrow> json \<Rightarrow> downloader" where
  "downloader_of k i t a c = \<lparr>kind = k, src_id = Some i, book = Some (i, t, a, c)\<rparr>"

subsection \<open>Notions of pacing\<close>

text \<open>
  A store attempt ends with the log line that the book was stored or that the store
  failed. A trace is paced when each such line is directly followed by a pause of 1 and
  there is no other pause. A trace is quiet when it has neither.
\<close>

fun attempt_end :: "event \<Rightarrow> bool" where
  "attempt_end (Log l (StoredSuccessfully i)) = True"
| "attempt_end (Log l (FailedToStore i)) = True"
| "attempt_end e = False"

fun is_pause :: "event \<Rightarrow> bool" where
  "is_pause (Sleep n) = True"
| "is_pause e = False"

fun paced_from :: "bool \<Rightarrow> event list \<Rightarrow> bool" where
  "paced_from p [] = (\<not> p)"
| "paced_from p (e # evs) =
     (if p then e = Sleep 1 \<and> paced_from False evs
      else \<not> is_pause e \<and> paced_from (attempt_end e) evs)"

definition paced :: "event list \<Rightarrow> bool" where
  "paced evs = paced_from False evs"

definition quiet :: "event list \<Rightarrow> bool" where
  "quiet evs = (\<forall>e \<in> set evs. \<not> is_pause e \<and> \<not> attempt_end e)"

subsection \<open>Notions of the store\<close>

text \<open>
  \<open>unique_col k rows\<close>: no two rows have the same value other than NULL in the
  identifier column of source \<open>k\<close>; \<open>unique_ids\<close>: this holds of the three
  identifier columns. \<open>store_all\<close> calls \<open>store_in_db\<close> for a sequence of
  downloader objects, up to the first exception.
\<close>

definition unique_col :: "source_kind \<Rightarrow> row list \<Rightarrow> bool" where
  "unique_col k rows = distinct (filter (\<lambda>v. v \<noteq> SqlNull) (map (id_col k) rows))"

definition unique_ids :: "row list \<Rightarrow> bool" where
  "unique_ids rows =
     (unique_col Gutenberg rows \<and> unique_col InternetArchive rows \<and> unique_col GoogleBooks rows)"

fun store_all :: "env \<Rightarrow> downloader list \<Rightarrow> row list \<Rightarrow> row list" where
  "store_all w [] rows = rows"
| "store_all w (d # ds) rows =
     (case store_in_db w d rows of
        (evs, Some e, rows') \<Rightarrow> rows'
      | (evs, None, rows') \<Rightarrow> store_all w ds rows')"

text \<open>\<open>has_id rows k v\<close>: some row has the value \<open>v\<close> in the identifier column
  of source \<open>k\<close>.\<close>

definition has_id :: "row list \<Rightarrow> source_kind \<Rightarrow> sqlval \<Rightarrow> bool" where
  "has_id rows k v = list_ex (\<lambda>r. id_col k r = v) rows"

subsection \<open>Sample worlds\<close>

text \<open>A host without OCR tools whose server answers no request.\<close>

definition offline :: env where
  "offline =
     \<lparr>session_get = (\<lambda>u. RequestException),
      extract_text = (\<lambda>b. None), which = (\<lambda>c. None), ocrmypdf = (\<lambda>b. None),
      api_key = None, quote = (\<lambda>s. s)\<rparr>"

definition page :: "int \<Rightarrow> string \<Rightarrow> http_result" where
  "page st s = Response \<lparr>status_code = st, body_text = s, body = s, json_body = None\<rparr>"

text \<open>The first candidate of Gutenberg book 1 answers 200 with a blank page, every other
  URL with a text.\<close>

definition blank_first :: env where
  "blank_first =
     offline\<lparr>session_get := (\<lambda>u.
        if u = ''https://www.gutenberg.org/files/1/1-0.txt'' then page 200 '' ''
        else page 200 ''Call me Ishmael.'')\<rparr>"

text \<open>The first candidate of Gutenberg book 1 is missing, the second request fails, the
  third answers with a text.\<close>

definition third_only :: env where
  "third_only =
     offline\<lparr>session_get := (\<lambda>u.
        if u = ''https://www.gutenberg.org/files/1/1-0.txt'' then page 404 ''Not Found''
        else if u = ''https://www.gutenberg.org/files/1/1.txt'' then OtherException
        else page 200 ''Call me Ishmael.'')\<rparr>"

definition gutenberg_1 :: downloader where
  "gutenberg_1 = \<lparr>kind = Gutenberg, src_id = Some (IntId 1), book = None\<rparr>"

text \<open>A host with tesseract and ghostscript: one PDF has embedded text, a scan has none
  until ocrmypdf adds a text layer. Its server answers every request with a short page.
  \<open>volume\<close> is the metadata of a Google Books volume with a PDF.\<close>

definition doc :: "string \<Rightarrow> response" where
  "doc b = \<lparr>status_code = 200, body_text = b, body = b, json_body = None\<rparr>"

definition scanner :: env where
  "scanner =
     \<lparr>session_get = (\<lambda>u. Response (doc ''captcha'')),
      extract_text = (\<lambda>b.
        if b = ''born digital'' then Some ''Embedded text''
        else if b = ''scan'' then Some '' ''
        else if b = ''scan with text layer'' then Some ''Recognised text''
        else None),
      which = (\<lambda>c.
        if c = ''tesseract'' then Some ''/usr/bin/tesseract''
        else if c = ''gs'' then Some ''/usr/bin/gs''
        else None),
      ocrmypdf = (\<lambda>b. Some (b @ '' with text layer'')),
      api_key = None, quote = (\<lambda>s. s)\<rparr>"

definition volume :: json where
  "volume =
     JObj [(''accessInfo'',
        JObj [(''pdf'',
          JObj [(''isAvailable'', JBool True),
                (''downloadLink'', JStr ''https://books.google.com/download/x.pdf'')])])]"

text \<open>
  A host like \<open>scanner\<close> whose server has the first text file of Gutenberg book 1 and
  the metadata of a Google Books volume without a PDF. \<open>moby\<close> is an input record
  for that book with an empty author and a null category, \<open>shelf\<close> the table once the
  record is stored, \<open>moby_request\<close> the downloader object made for it.
\<close>

definition library :: env where
  "library =
     scanner\<lparr>session_get := (\<lambda>u.
        if u = ''https://www.gutenberg.org/files/1/1-0.txt'' then page 200 ''Call me Ishmael.''
        else if u = ''https://www.googleapis.com/books/v1/volumes/abc''
        then Response \<lparr>status_code = 200, body_text = [], body = [],
               json_body = Some (JObj [(''accessInfo'', JObj [(''pdf'', JObj [(''isAvailable'', JBool False)])])])\<rparr>
        else page 404 ''Not Found'')\<rparr>"

definition moby :: "(string \<times> json) list" where
  "moby =
     [(''URL'', JStr ''https://www.gutenberg.org/ebooks/1''),
      (''Title'', JStr ''Moby Dick''),
      (''author'', JStr ''''),
      (''category'', JNull)]"

definition shelf :: "row list" where
  "shelf =
     [\<lparr>rid = 1, gutenberg_id = SqlInt 1, ia_title_id = SqlNull, gb_title_id = SqlNull,
       author = SqlText ''Unknown'', title = SqlText ''Moby Dick'',
       category = SqlText ''Uncategorized'',
       source_url = SqlText ''https://www.gutenberg.org/files/1/1-0.txt'',
       content = SqlText ''Call me Ishmael.''\<rparr>]"

definition unavailable :: json where
  "unavailable = JObj [(''accessInfo'', JObj [(''pdf'', JObj [(''isAvailable'', JBool False)])])]"

definition moby_request :: downloader where
  "moby_request =
     \<lparr>kind = Gutenberg, src_id = Some (IntId 1),
      book = Some (IntId 1, JStr ''Moby Dick'', JStr ''Unknown'', JStr ''Uncategorized'')\<rparr>"

text \<open>A batch of four records: a Google Books volume without a PDF, a record without
  a title, and the record \<open>moby\<close> twice.\<close>

definition untitled :: json where
  "untitled = JObj [(''url'', JStr ''https://www.gutenberg.org/ebooks/2'')]"

definition google_abc :: json where
  "google_abc =
     JObj [(''url'', JStr ''https://books.google.com/books?id=abc''), (''title'', JStr ''A Book'')]"

definition batch :: json where
  "batch = JArr [google_abc, untitled, JObj moby, JObj moby]"

text \<open>A second request for Gutenberg book 1, with another title, author and category.\<close>

definition whale_request :: downloader where
  "whale_request =
     \<lparr>kind = Gutenberg, src_id = Some (IntId 1),
      book = Some (IntId 1, JStr ''The Whale'', JStr ''Herman Melville'', JStr ''Novel'')\<rparr>"


text \<open>The input record for Gutenberg book 1 with neither author nor category.\<close>

definition bare :: "(string \<times> json) list" where
  "bare =
     [(''url'', JStr ''https://www.gutenberg.org/ebooks/1''),
      (''title'', JStr ''Moby Dick'')]"

section \<open>Properties of the resolver\<close>

lemma int_space_eq: "int_space = is_int_space"
  by (auto simp: int_space_def is_int_space_def fun_eq_iff)

lemma rev_dropWhile_rev:
  "rev (dropWhile P (rev u)) = take (length u - length (takeWhile P (rev u))) u"
proof -
  have "dropWhile P (rev u) = drop (length (takeWhile P (rev u))) (rev u)"
    by (rule dropWhile_eq_drop)
  then show ?thesis
    by (simp add: rev_drop)
qed

lemma trim_int_strip: "trim t = int_strip t"
  by (simp add: trim_def int_strip_def int_space_eq rev_dropWhile_rev Let_def)

lemma underscore_not_digit [simp]: "\<not> is_digit CHR ''_''"
  by (simp add: is_digit_def code_def)

text \<open>The digits that \<open>parse_digits\<close> accepts after a digit (\<open>d\<close> true) or at the start
  or after an underscore (\<open>d\<close> false).\<close>

lemma parse_digits_char:
  "parse_digits acc d cs =
     (if list_all (\<lambda>c. is_digit c \<or> c = CHR ''_'') cs \<and> (cs = [] \<longrightarrow> d) \<and>
         (cs \<noteq> [] \<longrightarrow> (hd cs = CHR ''_'' \<longrightarrow> d) \<and> is_digit (last cs)) \<and> \<not> sublist ''__'' cs
      then Some (foldl (\<lambda>a c. 10 * a + (code c - 48)) acc (filter is_digit cs))
      else None)"
proof (induction cs arbitrary: acc d)
  case Nil
  then show ?case by simp
next
  case (Cons c cs)
  have step: "parse_digits acc d (c # cs) =
     (if is_digit c then parse_digits (10 * acc + (code c - 48)) True cs
      else if c = CHR ''_'' \<and> d then parse_digits acc False cs
      else None)"
    by simp
  have two: "prefix ''__'' (x # xs) \<longleftrightarrow> x = CHR ''_'' \<and> xs \<noteq> [] \<and> hd xs = CHR ''_''" for x xs
    by (cases xs) auto
  show ?case
    unfolding step Cons.IH
    by (cases cs) (auto simp: sublist_Cons_right two simp del: parse_digits.simps)
qed

lemma parse_limited_digits_ok:
  "parse_limited b = (if digits_ok b then Some (digits_value b) else None)"
proof (cases b)
  case Nil
  then show ?thesis
    by (simp add: parse_limited_def digits_ok_def)
next
  case (Cons c cs)
  have "list_all (\<lambda>c. is_digit c \<or> c = CHR ''_'') b \<Longrightarrow> (hd b \<noteq> CHR ''_'') = is_digit (hd b)"
    using Cons by auto
  then show ?thesis
    using Cons
    by (auto simp: parse_limited_def parse_digits_char digits_ok_def digits_value_def
             simp del: parse_digits.simps)
qed

lemma py_int_int_of_text: "py_int t = int_of_text t"
  by (simp add: py_int_def int_of_text_def trim_int_strip parse_limited_digits_ok
           split: list.splits)

lemma prefix_take: "prefix lit t \<longleftrightarrow> take (length lit) t = lit"
  by (metis prefix_def append_eq_conv_conj take_is_prefix)

lemma group_not_amp_at:
  "group_not_amp lit (drop i s) =
     (let g = run_from (\<lambda>c. c \<noteq> CHR ''&'') s (i + length lit)
      in if occurs_at lit s i \<and> g \<noteq> [] then Some g else None)"
  by (simp add: group_not_amp_def after_prefix_def prefix_take occurs_at_def run_from_def
        Let_def add.commute)

lemma dropWhile_cases:
  "(case dropWhile P r of [] \<Rightarrow> a | x # r' \<Rightarrow> f r') =
     (if length (takeWhile P r) < length r then f (drop (Suc (length (takeWhile P r))) r) else a)"
proof -
  let ?n = "length (takeWhile P r)"
  have d: "dropWhile P r = drop ?n r"
    by (rule dropWhile_eq_drop)
  show ?thesis
  proof (cases "?n < length r")
    case True
    then have "drop ?n r = r ! ?n # drop (Suc ?n) r"
      by (simp add: Cons_nth_drop_Suc)
    with d have "dropWhile P r = r ! ?n # drop (Suc ?n) r"
      by (rule trans)
    then have "(case dropWhile P r of [] \<Rightarrow> a | x # r' \<Rightarrow> f r') = f (drop (Suc ?n) r)"
      by (simp only: list.case)
    with True show ?thesis
      by (simp only: if_True)
  next
    case False
    then have "drop ?n r = []"
      by simp
    with d have "dropWhile P r = []"
      by (rule trans)
    then have "(case dropWhile P r of [] \<Rightarrow> a | x # r' \<Rightarrow> f r') = a"
      by (simp only: list.case)
    with False show ?thesis
      by (simp only: if_False)
  qed
qed

lemma edition_here_at: "edition_here (drop i s) = shape_at EditionPath s i"
proof (cases "occurs_at ''/books/edition/'' s i")
  case False
  then show ?thesis
    by (simp add: edition_here_def after_prefix_def prefix_take occurs_at_def Let_def)
next
  case True
  then have p: "after_prefix ''/books/edition/'' (drop i s)
      = Some (drop (i + length ''/books/edition/'') s)"
    by (simp add: after_prefix_def prefix_take occurs_at_def)
  let ?r = "drop (i + length ''/books/edition/'') s"
  let ?a = "takeWhile (\<lambda>c. c \<noteq> CHR ''/'') ?r"
  have l: "length ?a < length ?r \<longleftrightarrow> i + length ''/books/edition/'' + length ?a < length s"
    by auto
  have dd: "drop (Suc (length ?a)) ?r = drop (i + length ''/books/edition/'' + length ?a + 1) s"
    by (simp add: add.commute add.left_commute)
  have e: "edition_here (drop i s) =
      (if ?a = [] then None
       else if length ?a < length ?r
       then (let g = takeWhile (\<lambda>c. c \<noteq> CHR ''?'' \<and> c \<noteq> CHR ''/'') (drop (Suc (length ?a)) ?r)
             in if g = [] then None else Some g)
       else None)"
    unfolding edition_here_def p option.case dropWhile_cases ..
  show ?thesis
    unfolding e l dd
    using True by (simp add: run_from_def Let_def del: length_takeWhile_le)
qed

text \<open>A search that tries the start positions from the left finds the match at the
  least position that has one.\<close>

lemma scan_positions:
  assumes nil: "\<And>b. f b [] = None"
    and cons: "\<And>b c cs. f b (c # cs) =
        (case h b (c # cs) of Some g \<Rightarrow> Some g | None \<Rightarrow> f (\<not> is_word c) cs)"
  shows "k \<le> length s \<Longrightarrow>
     f (word_boundary s k) (drop k s) =
       (case find (\<lambda>i. h (word_boundary s i) (drop i s) \<noteq> None) [k..<length s] of
          None \<Rightarrow> None
        | Some i \<Rightarrow> h (word_boundary s i) (drop i s))"
proof (induction "length s - k" arbitrary: k)
  case 0
  then have "k = length s" by simp
  then show ?case
    by (simp add: nil)
next
  case (Suc n)
  then have k: "k < length s" by simp
  then have d: "drop k s = s ! k # drop (Suc k) s"
    by (simp add: Cons_nth_drop_Suc)
  have u: "[k..<length s] = k # [Suc k..<length s]"
    using k by (simp add: upt_conv_Cons)
  have b: "word_boundary s (Suc k) = (\<not> is_word (s ! k))"
    by (simp add: word_boundary_def)
  from Suc(2) k have "n = length s - Suc k" by simp
  from Suc(1) [OF this] k
  have ih: "f (word_boundary s (Suc k)) (drop (Suc k) s) =
       (case find (\<lambda>i. h (word_boundary s i) (drop i s) \<noteq> None) [Suc k..<length s] of
          None \<Rightarrow> None
        | Some i \<Rightarrow> h (word_boundary s i) (drop i s))"
    by simp
  show ?case
  proof (cases "h (word_boundary s k) (drop k s)")
    case None
    then have "f (word_boundary s k) (drop k s) = f (word_boundary s (Suc k)) (drop (Suc k) s)"
      using cons [of "word_boundary s k" "s ! k" "drop (Suc k) s"] d b by simp
    with None ih u show ?thesis
      by simp
  next
    case (Some g)
    then have "f (word_boundary s k) (drop k s) = Some g"
      using cons [of "word_boundary s k" "s ! k" "drop (Suc k) s"] d by simp
    with Some u show ?thesis
      by simp
  qed
qed

lemma edition_here_Nil: "edition_here [] = None"
  by (simp add: edition_here_def after_prefix_def)

lemma search_edition_capture: "search_edition s = shape_capture EditionPath s"
proof -
  have "(\<lambda>b. search_edition) (word_boundary s 0) (drop 0 s) =
       (case find (\<lambda>i. (\<lambda>b. edition_here) (word_boundary s i) (drop i s) \<noteq> None) [0..<length s] of
          None \<Rightarrow> None
        | Some i \<Rightarrow> (\<lambda>b. edition_here) (word_boundary s i) (drop i s))"
    by (rule scan_positions) (simp_all add: edition_here_Nil)
  then show ?thesis
    by (simp add: shape_capture_def edition_here_at word_boundary_def del: shape_at.simps
          cong: option.case_cong)
qed

lemma search_books_id_capture: "search_books_id s = shape_capture BooksId s"
proof -
  have "(\<lambda>b. search_books_id) (word_boundary s 0) (drop 0 s) =
       (case find (\<lambda>i. (\<lambda>b. group_not_amp ''/books?id='') (word_boundary s i) (drop i s) \<noteq> None)
               [0..<length s] of
          None \<Rightarrow> None
        | Some i \<Rightarrow> (\<lambda>b. group_not_amp ''/books?id='') (word_boundary s i) (drop i s))"
    by (rule scan_positions) simp_all
  moreover have "group_not_amp ''/books?id='' (drop i s) = shape_at BooksId s i" for i
    by (simp add: group_not_amp_at Let_def)
  ultimately show ?thesis
    by (simp add: shape_capture_def del: shape_at.simps cong: option.case_cong)
qed

lemma search_id_param_capture: "search_id_param True s = shape_capture IdParam s"
proof -
  let ?h = "\<lambda>b t. if b then group_not_amp ''id='' t else None"
  have "search_id_param (word_boundary s 0) (drop 0 s) =
       (case find (\<lambda>i. ?h (word_boundary s i) (drop i s) \<noteq> None) [0..<length s] of
          None \<Rightarrow> None
        | Some i \<Rightarrow> ?h (word_boundary s i) (drop i s))"
    by (rule scan_positions) simp_all
  moreover have "?h (word_boundary s i) (drop i s) = shape_at IdParam s i" for i
    by (simp add: group_not_amp_at Let_def)
  moreover have "word_boundary s 0"
    by (simp add: word_boundary_def)
  ultimately show ?thesis
    by (simp add: shape_capture_def del: shape_at.simps cong: option.case_cong)
qed

lemma contains_sublist: "contains sub s \<longleftrightarrow> sublist sub s"
  by (induction s) (auto simp: sublist_Cons_right)

lemma following_None: "following seg s = None \<longleftrightarrow> \<not> contains seg s"
  by (induction s) auto

lemma split_ne_nonempty: "split_ne sep s \<noteq> []"
  by (induction sep s rule: split_ne.induct) (auto split: list.splits)

lemma split_ne_hd: "sep \<noteq> [] \<Longrightarrow> split_ne sep s ! 0 = before sep s"
  by (induction sep s rule: split_ne.induct) (auto split: list.splits simp: split_ne_nonempty)

lemma drop_length_Cons: "sep \<noteq> [] \<Longrightarrow> drop (length sep) (c # cs) = drop (length sep - 1) cs"
  by (cases sep) auto

text \<open>Where the separator occurs, the split has a second piece: the text after the first
  occurrence up to the next one. So \<open>split(sep)[1]\<close> raises no IndexError behind the
  \<open>in\<close> test.\<close>

lemma split_ne_second:
  "sep \<noteq> [] \<Longrightarrow> following sep s = Some r \<Longrightarrow>
     1 < length (split_ne sep s) \<and> split_ne sep s ! 1 = before sep r"
proof (induction sep s rule: split_ne.induct)
  case (1 sep)
  then show ?case by simp
next
  case (2 sep c cs)
  show ?case
  proof (cases "prefix sep (c # cs)")
    case True
    with 2 have r: "r = drop (length sep - 1) cs"
      by (simp add: drop_length_Cons)
    have "split_ne sep r \<noteq> []" by (rule split_ne_nonempty)
    then have "0 < length (split_ne sep r)" by simp
    with True 2(3) r show ?thesis
      using split_ne_hd [of sep r] by simp
  next
    case False
    with 2 have f: "following sep cs = Some r" by simp
    from 2(2) [OF _ 2(3) f] False
    have ih: "1 < length (split_ne sep cs) \<and> split_ne sep cs ! 1 = before sep r" by simp
    then obtain p q ps where "split_ne sep cs = p # q # ps"
      by (cases "split_ne sep cs"; cases "tl (split_ne sep cs)") auto
    with ih False show ?thesis by simp
  qed
qed

lemma gutenberg_get_id_str:
  "gutenberg_get_id (JStr s) =
     Inr (case following ''/ebooks/'' s of
            None \<Rightarrow> None
          | Some r \<Rightarrow> map_option IntId (py_int (before ''?'' (before ''/ebooks/'' r))))"
proof (cases "following ''/ebooks/'' s")
  case None
  then have "\<not> contains ''/ebooks/'' s"
    by (simp add: following_None)
  with None show ?thesis
    by (simp add: gutenberg_get_id_def)
next
  case (Some r)
  then have c: "contains ''/ebooks/'' s"
    using following_None [of "''/ebooks/''" s] by simp
  have s2: "1 < length (split_ne ''/ebooks/'' s) \<and> split_ne ''/ebooks/'' s ! 1 = before ''/ebooks/'' r"
    using split_ne_second [OF _ Some] by simp
  have s0: "0 < length (split_ne ''?'' t)" for t
    using split_ne_nonempty [of "''?''" t] by simp
  show ?thesis
    using Some c s2 s0 split_ne_hd [of "''?''"]
    by (simp add: gutenberg_get_id_def split_index_def split_def index_def split: option.splits)
qed

lemma ia_get_id_str:
  "ia_get_id (JStr s) =
     Inr (case following ''/details/'' s of
            None \<Rightarrow> None
          | Some r \<Rightarrow> Some (StrId (before ''/'' (before ''/details/'' r))))"
proof (cases "following ''/details/'' s")
  case None
  then have "\<not> contains ''/details/'' s"
    by (simp add: following_None)
  with None show ?thesis
    by (simp add: ia_get_id_def)
next
  case (Some r)
  then have c: "contains ''/details/'' s"
    using following_None [of "''/details/''" s] by simp
  have s2: "1 < length (split_ne ''/details/'' s) \<and> split_ne ''/details/'' s ! 1 = before ''/details/'' r"
    using split_ne_second [OF _ Some] by simp
  have s0: "0 < length (split_ne ''/'' t)" for t
    using split_ne_nonempty [of "''/''" t] by simp
  show ?thesis
    using Some c s2 s0 split_ne_hd [of "''/''"]
    by (simp add: ia_get_id_def split_index_def split_def index_def)
qed

lemma gb_get_id_str:
  "gb_get_id (JStr s) =
     Inr (case search_edition s of
            Some g \<Rightarrow> Some (StrId g)
          | None \<Rightarrow>
             (case search_id_param True s of
                Some g \<Rightarrow> Some (StrId g)
              | None \<Rightarrow> map_option StrId (search_books_id s)))"
  by (simp add: gb_get_id_def patterns_def split: option.splits)

lemma match_downloader_spec: "match_downloader DOWNLOADERS (JStr s) = Inr (spec_source s)"
  by (simp add: DOWNLOADERS_def spec_source_def contains_sublist)

lemma get_id_spec: "get_id k (JStr s) = Inr (spec_identity k s)"
proof (cases k)
  case Gutenberg
  then show ?thesis
    by (simp add: gutenberg_get_id_str spec_identity_def py_int_int_of_text
          cong: option.case_cong)
next
  case InternetArchive
  then show ?thesis
    by (simp add: ia_get_id_str spec_identity_def)
next
  case GoogleBooks
  then show ?thesis
    by (simp add: gb_get_id_str spec_identity_def search_edition_capture
          search_id_param_capture search_books_id_capture split: option.splits)
qed

lemma resolve_spec: "resolve (JStr s) = Inr (spec_resolve s)"
  by (simp add: resolve_def spec_resolve_def match_downloader_spec get_id_spec
        split: option.splits)

text \<open>
  C4. Resolving a URL (a string) never raises: it gives exactly the identity that the
  specification describes, or none. In particular, when the URL contains the domain token
  of a registered source, so that source \<open>k\<close> is the one matched, and does not have
  the identifier pattern of \<open>k\<close> (the path segment is missing, what follows is not
  the text of an integer, no URL shape is found), the resolution gives no identity.
\<close>

theorem resolve_malformed_url:
  "resolve (JStr s) = Inr (spec_resolve s) \<and>
   (spec_source s = Some k \<and> \<not> id_pattern k s \<longrightarrow> resolve (JStr s) = Inr None)"
  by (simp add: resolve_spec spec_resolve_def id_pattern_def)

theorem resolve_malformed_url_witness:
  "spec_source ''https://www.gutenberg.org/ebooks/abc'' = Some Gutenberg \<and>
   \<not> id_pattern Gutenberg ''https://www.gutenberg.org/ebooks/abc'' \<and>
   resolve (JStr ''https://www.gutenberg.org/ebooks/abc'') = Inr None \<and>
   resolve (JStr (''https://www.gutenberg.org/ebooks/'' @ [CHR 0x1C] @ ''12'')) = Inr None \<and>
   resolve (JStr ''https://archive.org/'') = Inr None \<and>
   resolve (JStr ''https://books.google.com/books?vid=9'') = Inr None \<and>
   resolve (JStr ''https://www.gutenberg.org/ebooks/1342?x=1'') = Inr (Some (Gutenberg, IntId 1342)) \<and>
   resolve (JStr ''https://www.gutenberg.org/ebooks/1_342'') = Inr (Some (Gutenberg, IntId 1342)) \<and>
   resolve (JStr ''https://archive.org/details/foo/bar'') = Inr (Some (InternetArchive, StrId ''foo'')) \<and>
   resolve (JStr ''https://books.google.com/books?id=abc&x=1'') = Inr (Some (GoogleBooks, StrId ''abc''))"
proof -
  have m: "spec_source ''https://www.gutenberg.org/ebooks/abc'' = Some Gutenberg"
    by code_simp
  have p: "\<not> id_pattern Gutenberg ''https://www.gutenberg.org/ebooks/abc''"
    by code_simp
  have 1: "spec_resolve (''https://www.gutenberg.org/ebooks/'' @ [CHR 0x1C] @ ''12'') = None"
    by code_simp
  have 2: "spec_resolve ''https://archive.org/'' = None"
    by code_simp
  have 3: "spec_resolve ''https://books.google.com/books?vid=9'' = None"
    by code_simp
  have 4: "spec_resolve ''https://www.gutenberg.org/ebooks/1342?x=1'' = Some (Gutenberg, IntId 1342)"
    by code_simp
  have 5: "spec_resolve ''https://www.gutenberg.org/ebooks/1_342'' = Some (Gutenberg, IntId 1342)"
    by code_simp
  have 6: "spec_resolve ''https://archive.org/details/foo/bar'' = Some (InternetArchive, StrId ''foo'')"
    by code_simp
  have 7: "spec_resolve ''https://books.google.com/books?id=abc&x=1'' = Some (GoogleBooks, StrId ''abc'')"
    by code_simp
  from resolve_malformed_url [of "''https://www.gutenberg.org/ebooks/abc''" Gutenberg] m p
  have 0: "resolve (JStr ''https://www.gutenberg.org/ebooks/abc'') = Inr None"
    by blast
  note r = resolve_malformed_url [THEN conjunct1]
  show ?thesis
    using m p 0 r [of "''https://www.gutenberg.org/ebooks/'' @ [CHR 0x1C] @ ''12''"]
      r [of "''https://archive.org/''"]
      r [of "''https://books.google.com/books?vid=9''"]
      r [of "''https://www.gutenberg.org/ebooks/1342?x=1''"]
      r [of "''https://www.gutenberg.org/ebooks/1_342''"]
      r [of "''https://archive.org/details/foo/bar''"]
      r [of "''https://books.google.com/books?id=abc&x=1''"]
    unfolding 1 2 3 4 5 6 7 by blast
qed

section \<open>Properties of the fetch strategy\<close>

lemma download_text_first:
  "download_text w urls = (evs, res) \<Longrightarrow>
     requested evs = tried w urls \<and>
     res = (case find (status_200 w) urls of
              None \<Rightarrow> None
            | Some u \<Rightarrow> (case session_get w u of Response r \<Rightarrow> Some (r, u) | _ \<Rightarrow> None))"
proof (induction urls arbitrary: evs res)
  case Nil
  then show ?case by (simp add: tried_def)
next
  case (Cons u us)
  obtain evs' res' where rest: "download_text w us = (evs', res')"
    by (cases "download_text w us")
  note ih = Cons.IH [OF rest]
  show ?case
  proof (cases "session_get w u")
    case (Response r)
    with Cons.prems rest ih show ?thesis
      by (auto simp: tried_def status_200_def split: if_splits)
  next
    case RequestException
    with Cons.prems rest ih show ?thesis
      by (auto simp: tried_def status_200_def)
  next
    case OtherException
    with Cons.prems rest ih show ?thesis
      by (auto simp: tried_def status_200_def)
  qed
qed

lemma response_ok_200: "status_code r = 200 \<Longrightarrow> response_ok r"
  by (simp add: response_ok_def)

lemma find_status_200:
  "find (status_200 w) urls = Some u \<Longrightarrow> \<exists>r. session_get w u = Response r \<and> status_code r = 200"
proof -
  assume "find (status_200 w) urls = Some u"
  then have "status_200 w u"
    by (auto simp: find_Some_iff)
  then show ?thesis
    by (cases "session_get w u") (auto simp: status_200_def)
qed

lemma text_download_first:
  "text_download w urls = (evs, res) \<Longrightarrow>
     requested evs = tried w urls \<and> res = first_status_200 w urls"
proof -
  assume a: "text_download w urls = (evs, res)"
  obtain evs' r' where d: "download_text w urls = (evs', r')"
    by (cases "download_text w urls")
  note f = download_text_first [OF d]
  show ?thesis
  proof (cases "find (status_200 w) urls")
    case None
    with a d f show ?thesis
      by (auto simp: text_download_def first_status_200_def)
  next
    case (Some u)
    then obtain r where r: "session_get w u = Response r" "status_code r = 200"
      using find_status_200 by blast
    with a d f Some show ?thesis
      by (auto simp: text_download_def first_status_200_def text_at_def response_ok_200 split: if_splits)
  qed
qed

text \<open>
  C1, as the source has it. The download of a Gutenberg or Internet Archive identifier
  requests the candidates in order up to the first response with status 200 and no
  further; a failed request or another status moves on to the next candidate. It never
  raises. Its result is the text and URL of that first status-200 response when the text
  is not empty once trimmed, and nothing otherwise: a blank first status-200 response ends
  the fetch, later candidates are not tried.
\<close>

theorem download_first_status_200:
  "(kind d = Gutenberg \<or> kind d = InternetArchive) \<and> src_id d = Some i \<and> download w d = (evs, res)
   \<longrightarrow> requested evs = tried w (candidates (kind d) i) \<and>
       res = Inr (first_status_200 w (candidates (kind d) i))"
  by (auto simp: download_def split: prod.splits dest: text_download_first)

theorem download_first_status_200_witness:
  "requested (fst (download third_only gutenberg_1))
     = [''https://www.gutenberg.org/files/1/1-0.txt'',
        ''https://www.gutenberg.org/files/1/1.txt'',
        ''https://www.gutenberg.org/ebooks/1.txt.utf-8''] \<and>
   snd (download third_only gutenberg_1)
     = Inr (Some ''Call me Ishmael.'', Some ''https://www.gutenberg.org/ebooks/1.txt.utf-8'')"
proof -
  have k: "kind gutenberg_1 = Gutenberg" "src_id gutenberg_1 = Some (IntId 1)"
    by (simp_all add: gutenberg_1_def)
  have t: "tried third_only (candidates Gutenberg (IntId 1))
     = [''https://www.gutenberg.org/files/1/1-0.txt'',
        ''https://www.gutenberg.org/files/1/1.txt'',
        ''https://www.gutenberg.org/ebooks/1.txt.utf-8'']"
    by code_simp
  have f: "first_status_200 third_only (candidates Gutenberg (IntId 1))
     = (Some ''Call me Ishmael.'', Some ''https://www.gutenberg.org/ebooks/1.txt.utf-8'')"
    by code_simp
  show ?thesis
    using download_first_status_200 [of gutenberg_1 "IntId 1" third_only
        "fst (download third_only gutenberg_1)" "snd (download third_only gutenberg_1)"] k t f
    by simp
qed

text \<open>The claim as the specification words it fails: the second candidate has status 200
  and a text, and the fetch returns nothing because the first one is blank.\<close>

theorem download_first_acceptable_counterexample:
  "snd (download blank_first gutenberg_1) = Inr (None, None) \<and>
   first_acceptable blank_first (gutenberg_urls (IntId 1))
     = (Some ''Call me Ishmael.'', Some ''https://www.gutenberg.org/files/1/1.txt'')"
  by code_simp

section \<open>Properties of the extraction pipeline\<close>

lemma strip_Nil [simp]: "strip [] = []"
  by (simp add: strip_def)

lemma which_or_None:
  "which_or a b = None \<longleftrightarrow> (a = None \<or> a = Some []) \<and> b = None"
  by (auto simp: which_or_def split: option.splits)

lemma ocr_runs_append [simp]: "ocr_runs (xs @ ys) = ocr_runs xs @ ocr_runs ys"
  by (induction xs rule: ocr_runs.induct) auto

lemma extracted_append [simp]: "extracted (xs @ ys) = extracted xs @ extracted ys"
  by (induction xs rule: extracted.induct) auto

lemma requested_append [simp]: "requested (xs @ ys) = requested xs @ requested ys"
  by (induction xs rule: requested.induct) auto

lemma structural_with_text:
  "has_text w (body pdf) \<Longrightarrow>
     extract_text_from_pdf w pdf = ([ExtractText (body pdf)], extract_text w (body pdf))"
  by (auto simp: has_text_def extract_text_from_pdf_def split: option.splits)

lemma structural_without_text:
  "\<not> has_text w (body pdf) \<Longrightarrow>
     snd (extract_text_from_pdf w pdf) = None \<and>
     ocr_runs (fst (extract_text_from_pdf w pdf)) = [] \<and>
     extracted (fst (extract_text_from_pdf w pdf)) = [body pdf]"
  by (auto simp: has_text_def extract_text_from_pdf_def split: option.splits)

lemma ocr_incapable:
  "\<not> ocr_capable w \<Longrightarrow>
     snd (extract_ocr_from_pdf w pdf) = None \<and>
     ocr_runs (fst (extract_ocr_from_pdf w pdf)) = [] \<and>
     extracted (fst (extract_ocr_from_pdf w pdf)) = []"
  by (auto simp: ocr_capable_def extract_ocr_from_pdf_def which_or_None)

lemma ocr_capable_run:
  "ocr_capable w \<Longrightarrow>
     ocr_runs (fst (extract_ocr_from_pdf w pdf)) = [body pdf] \<and>
     (case ocrmypdf w (body pdf) of
        None \<Rightarrow> snd (extract_ocr_from_pdf w pdf) = None \<and>
                extracted (fst (extract_ocr_from_pdf w pdf)) = []
      | Some out \<Rightarrow>
          extracted (fst (extract_ocr_from_pdf w pdf)) = [out] \<and>
          snd (extract_ocr_from_pdf w pdf) = (if has_text w out then extract_text w out else None))"
  by (auto simp: ocr_capable_def extract_ocr_from_pdf_def which_or_None has_text_def
           split: option.splits)

text \<open>
  C6. When structural extraction gives text, the pipeline returns it after that single
  extraction and runs no OCR. When it gives none (it fails, or the text is empty or
  whitespace) and the host has the OCR engine and the rasterizer, OCR runs exactly once,
  on the original bytes, and its output goes through structural extraction, whose text
  (or none) is the result; a failed OCR run gives none. Without the capability the
  pipeline gives none and runs no OCR.
\<close>

theorem ocr_only_after_empty_extraction:
  "(has_text w (body pdf) \<longrightarrow>
      convert_pdf_to_text w pdf = ([ExtractText (body pdf)], extract_text w (body pdf))) \<and>
   (\<not> has_text w (body pdf) \<and> ocr_capable w \<longrightarrow>
      ocr_runs (fst (convert_pdf_to_text w pdf)) = [body pdf] \<and>
      (case ocrmypdf w (body pdf) of
         None \<Rightarrow> snd (convert_pdf_to_text w pdf) = None \<and>
                 extracted (fst (convert_pdf_to_text w pdf)) = [body pdf]
       | Some out \<Rightarrow>
           extracted (fst (convert_pdf_to_text w pdf)) = [body pdf, out] \<and>
           snd (convert_pdf_to_text w pdf) = (if has_text w out then extract_text w out else None))) \<and>
   (\<not> has_text w (body pdf) \<and> \<not> ocr_capable w \<longrightarrow>
      ocr_runs (fst (convert_pdf_to_text w pdf)) = [] \<and>
      snd (convert_pdf_to_text w pdf) = None)"
proof (intro conjI impI)
  assume "has_text w (body pdf)"
  then show "convert_pdf_to_text w pdf = ([ExtractText (body pdf)], extract_text w (body pdf))"
    by (auto simp: convert_pdf_to_text_def structural_with_text has_text_def split: option.splits)
next
  assume a: "\<not> has_text w (body pdf) \<and> ocr_capable w"
  obtain e1 where s: "extract_text_from_pdf w pdf = (e1, None)" "ocr_runs e1 = []" "extracted e1 = [body pdf]"
    using structural_without_text [of w pdf] a by (cases "extract_text_from_pdf w pdf") auto
  obtain e2 r2 where o: "extract_ocr_from_pdf w pdf = (e2, r2)"
    by (cases "extract_ocr_from_pdf w pdf")
  have c: "convert_pdf_to_text w pdf = (e1 @ e2, r2)"
    using s o by (simp add: convert_pdf_to_text_def)
  from ocr_capable_run [of w pdf] a o s c
  show "ocr_runs (fst (convert_pdf_to_text w pdf)) = [body pdf]"
    by simp
  from ocr_capable_run [of w pdf] a o s c
  show "case ocrmypdf w (body pdf) of
         None \<Rightarrow> snd (convert_pdf_to_text w pdf) = None \<and>
                 extracted (fst (convert_pdf_to_text w pdf)) = [body pdf]
       | Some out \<Rightarrow>
           extracted (fst (convert_pdf_to_text w pdf)) = [body pdf, out] \<and>
           snd (convert_pdf_to_text w pdf) = (if has_text w out then extract_text w out else None)"
    by (simp split: option.splits)
next
  assume a: "\<not> has_text w (body pdf) \<and> \<not> ocr_capable w"
  obtain e1 where s: "extract_text_from_pdf w pdf = (e1, None)" "ocr_runs e1 = []"
    using structural_without_text [of w pdf] a by (cases "extract_text_from_pdf w pdf") auto
  obtain e2 r2 where o: "extract_ocr_from_pdf w pdf = (e2, r2)"
    by (cases "extract_ocr_from_pdf w pdf")
  have c: "convert_pdf_to_text w pdf = (e1 @ e2, r2)"
    using s o by (simp add: convert_pdf_to_text_def)
  from ocr_incapable [of w pdf] a o s c
  show "ocr_runs (fst (convert_pdf_to_text w pdf)) = []" by simp
  from ocr_incapable [of w pdf] a o s c
  show "snd (convert_pdf_to_text w pdf) = None" by simp
qed

theorem ocr_only_after_empty_extraction_witness:
  "has_text scanner ''born digital'' \<and>
   convert_pdf_to_text scanner (doc ''born digital'')
     = ([ExtractText ''born digital''], Some ''Embedded text'') \<and>
   \<not> has_text scanner ''scan'' \<and> ocr_capable scanner \<and>
   ocr_runs (fst (convert_pdf_to_text scanner (doc ''scan''))) = [''scan''] \<and>
   extracted (fst (convert_pdf_to_text scanner (doc ''scan''))) = [''scan'', ''scan with text layer''] \<and>
   snd (convert_pdf_to_text scanner (doc ''scan'')) = Some ''Recognised text'' \<and>
   \<not> ocr_capable offline \<and>
   ocr_runs (fst (convert_pdf_to_text offline (doc ''scan''))) = [] \<and>
   snd (convert_pdf_to_text offline (doc ''scan'')) = None"
proof -
  have b: "body (doc x) = x" for x
    by (simp add: doc_def)
  have h1: "has_text scanner ''born digital''" by code_simp
  have e1: "extract_text scanner ''born digital'' = Some ''Embedded text''" by code_simp
  have h2: "\<not> has_text scanner ''scan''" by code_simp
  have c2: "ocr_capable scanner" by code_simp
  have o2: "ocrmypdf scanner ''scan'' = Some ''scan with text layer''" by code_simp
  have h3: "has_text scanner ''scan with text layer''" by code_simp
  have e3: "extract_text scanner ''scan with text layer'' = Some ''Recognised text''" by code_simp
  have h4: "\<not> has_text offline ''scan''" by code_simp
  have c4: "\<not> ocr_capable offline" by code_simp
  show ?thesis
    using ocr_only_after_empty_extraction [of scanner "doc ''born digital''"]
      ocr_only_after_empty_extraction [of scanner "doc ''scan''"]
      ocr_only_after_empty_extraction [of offline "doc ''scan''"]
      h1 e1 h2 c2 o2 h3 e3 h4 c4
    by (simp add: b)
qed

text \<open>
  C8. When the response that \<open>extract_pdf\<close> fetched from the download link has a
  status other than 200 or fewer than 50000 bytes, nothing is extracted (neither
  structurally nor by OCR) and the fetch returns (none, none).
\<close>

theorem small_pdf_not_extracted:
  "extract_pdf w meta = (evs, res) \<and> requested evs = [u] \<and> session_get w u = Response pdf \<and>
   (status_code pdf \<noteq> 200 \<or> length (body pdf) < 50000)
   \<longrightarrow> extracted evs = [] \<and> ocr_runs evs = [] \<and> res = Inr (None, None)"
  by (auto simp: extract_pdf_def pdf_get_def Let_def
           split: sum.splits if_splits json.splits http_result.splits prod.splits)

theorem small_pdf_not_extracted_witness:
  "requested (fst (extract_pdf scanner volume)) = [''https://books.google.com/download/x.pdf''] \<and>
   session_get scanner ''https://books.google.com/download/x.pdf'' = Response (doc ''captcha'') \<and>
   length (body (doc ''captcha'')) < 50000 \<and>
   extracted (fst (extract_pdf scanner volume)) = [] \<and>
   ocr_runs (fst (extract_pdf scanner volume)) = [] \<and>
   snd (extract_pdf scanner volume) = Inr (None, None)"
proof -
  have r: "requested (fst (extract_pdf scanner volume)) = [''https://books.google.com/download/x.pdf'']"
    by code_simp
  have g: "session_get scanner ''https://books.google.com/download/x.pdf'' = Response (doc ''captcha'')"
    by code_simp
  have l: "length (body (doc ''captcha'')) < 50000"
    by (simp add: doc_def)
  show ?thesis
    using small_pdf_not_extracted [of scanner volume "fst (extract_pdf scanner volume)"
        "snd (extract_pdf scanner volume)" "''https://books.google.com/download/x.pdf''" "doc ''captcha''"]
      r g l
    by simp
qed

section \<open>Properties of the coordinator\<close>

lemma map_of_filter_fst:
  "map_of (filter (\<lambda>p. fst p \<noteq> key) xs) k = (if k = key then None else map_of xs k)"
  by (induction xs) auto

lemma lower_get_without:
  "lower_get (without key kvs) k = (if k = key then JNull else lower_get kvs k)"
proof -
  have "map (\<lambda>(k, v). (lower k, v)) (filter (\<lambda>(k, v). lower k \<noteq> key) kvs)
      = filter (\<lambda>p. fst p \<noteq> key) (map (\<lambda>(k, v). (lower k, v)) kvs)"
    by (induction kvs) auto
  then show ?thesis
    by (simp add: lower_get_def without_def rev_filter map_of_filter_fst)
qed

lemma process_item_request:
  "process_item w n idx item rows =
     (case request item of
        Inl e \<Rightarrow> ([], Some e, rows)
      | Inr None \<Rightarrow> ([], None, rows)
      | Inr (Some (k, i, t, a, c)) \<Rightarrow>
          (case select_exists k i rows of
             Inl e \<Rightarrow> ([], Some e, rows)
           | Inr True \<Rightarrow> ([Log Info (Skipping i)], None, rows)
           | Inr False \<Rightarrow>
               (case store_in_db w (downloader_of k i t a c) rows of
                  (evs, Some e, rows') \<Rightarrow> (Log Info (Progress idx n) # evs, Some e, rows')
                | (evs, None, rows') \<Rightarrow> (Log Info (Progress idx n) # evs @ [Sleep 1], None, rows'))))"
  by (cases item)
     (simp_all add: process_item_def request_def downloader_of_def Let_def
        split: sum.splits option.splits prod.splits)

text \<open>
  C5. When the identifier that the request resolves to is already in the column of its
  source, the turn of the loop only logs that it skips the request: it makes no HTTP
  request at all, raises nothing and leaves the table as it is.
\<close>

theorem stored_identifier_not_fetched:
  "truthy (lower_get kvs ''url'') \<and> truthy (lower_get kvs ''title'') \<and>
   resolve (lower_get kvs ''url'') = Inr (Some (k, i)) \<and> select_exists k i rows = Inr True
   \<longrightarrow> process_item w n idx (JObj kvs) rows = ([Log Info (Skipping i)], None, rows) \<and>
       requested (fst (process_item w n idx (JObj kvs) rows)) = []"
  by (simp add: process_item_request request_def)

theorem stored_identifier_not_fetched_witness:
  "truthy (lower_get moby ''url'') \<and> truthy (lower_get moby ''title'') \<and>
   resolve (lower_get moby ''url'') = Inr (Some (Gutenberg, IntId 1)) \<and>
   select_exists Gutenberg (IntId 1) shelf = Inr True \<and>
   process_item library 2 1 (JObj moby) shelf = ([Log Info (Skipping (IntId 1))], None, shelf) \<and>
   requested (fst (process_item library 2 1 (JObj moby) shelf)) = []"
proof -
  have u: "truthy (lower_get moby ''url'')" by code_simp
  have t: "truthy (lower_get moby ''title'')" by code_simp
  have r: "resolve (lower_get moby ''url'') = Inr (Some (Gutenberg, IntId 1))" by code_simp
  have e: "select_exists Gutenberg (IntId 1) shelf = Inr True" by code_simp
  show ?thesis
    using stored_identifier_not_fetched [of moby Gutenberg "IntId 1" shelf library 2 1] u t r e
    by blast
qed

lemma store_in_db_no_text:
  "book d = Some (tid, t, a, c) \<Longrightarrow> download w d = (evs, Inr (txt, url)) \<Longrightarrow>
   txt = None \<or> txt = Some [] \<Longrightarrow>
   store_in_db w d rows =
     (Log Info (Downloading tid (domain (kind d))) # evs @ [Log Warning (FailedToStore tid)],
      None, rows)"
  by (auto simp: store_in_db_def)

lemma extract_pdf_unavailable:
  "map_of m ''accessInfo'' = Some (JObj ai) \<Longrightarrow> map_of ai ''pdf'' = Some (JObj p) \<Longrightarrow>
   map_of p ''isAvailable'' = Some (JBool False) \<or> map_of p ''downloadLink'' = None \<Longrightarrow>
   snd (extract_pdf w (JObj m)) = Inr (None, None) \<and> requested (fst (extract_pdf w (JObj m))) = []"
proof -
  assume a: "map_of m ''accessInfo'' = Some (JObj ai)" and p: "map_of ai ''pdf'' = Some (JObj p)"
    and c: "map_of p ''isAvailable'' = Some (JBool False) \<or> map_of p ''downloadLink'' = None"
  from p have ai: "ai \<noteq> []" by auto
  have pp: "dict_get (py_or (JObj p) (JObj [])) k = Inr (case map_of p k of None \<Rightarrow> JNull | Some v \<Rightarrow> v)" for k
    by (cases p) (simp_all add: py_or_def)
  show ?thesis
    using a p ai c
    by (auto simp: extract_pdf_def py_or_def pp Let_def split: option.splits)
qed

text \<open>
  C7. When the download gives no text (none, or the empty string), \<open>store_in_db\<close>
  writes no row: the table is unchanged and the last log line is the warning that the
  store failed. For a Google Books volume whose metadata says that no PDF is available or
  has no download link, \<open>extract_pdf\<close> returns (none, none) without any request. A turn
  of the loop whose download gives no text logs the failure and leaves the table
  unchanged.
\<close>

theorem no_text_no_row:
  "(book d = Some (tid, t, a, c) \<and> download w d = (evs, Inr (txt, url)) \<and>
    (txt = None \<or> txt = Some [])
    \<longrightarrow> store_in_db w d rows =
          (Log Info (Downloading tid (domain (kind d))) # evs @ [Log Warning (FailedToStore tid)],
           None, rows)) \<and>
   (map_of m ''accessInfo'' = Some (JObj ai) \<and> map_of ai ''pdf'' = Some (JObj p) \<and>
    (map_of p ''isAvailable'' = Some (JBool False) \<or> map_of p ''downloadLink'' = None)
    \<longrightarrow> snd (extract_pdf w (JObj m)) = Inr (None, None) \<and>
        requested (fst (extract_pdf w (JObj m))) = []) \<and>
   (truthy (lower_get kvs ''url'') \<and> truthy (lower_get kvs ''title'') \<and>
    resolve (lower_get kvs ''url'') = Inr (Some (k, i)) \<and> select_exists k i rows = Inr False \<and>
    download w \<lparr>kind = k, src_id = Some i,
        book = Some (i, lower_get kvs ''title'',
                     py_or (lower_get kvs ''author'') (JStr ''Unknown''),
                     py_or (lower_get kvs ''category'') (JStr ''Uncategorized''))\<rparr>
      = (evs', Inr (None, url'))
    \<longrightarrow> process_item w n idx (JObj kvs) rows =
          (Log Info (Progress idx n) # Log Info (Downloading i (domain k)) # evs'
             @ [Log Warning (FailedToStore i), Sleep 1], None, rows))"
proof (intro conjI impI)
  assume "book d = Some (tid, t, a, c) \<and> download w d = (evs, Inr (txt, url)) \<and>
    (txt = None \<or> txt = Some [])"
  then show "store_in_db w d rows =
          (Log Info (Downloading tid (domain (kind d))) # evs @ [Log Warning (FailedToStore tid)],
           None, rows)"
    using store_in_db_no_text by blast
next
  assume "map_of m ''accessInfo'' = Some (JObj ai) \<and> map_of ai ''pdf'' = Some (JObj p) \<and>
    (map_of p ''isAvailable'' = Some (JBool False) \<or> map_of p ''downloadLink'' = None)"
  then show "snd (extract_pdf w (JObj m)) = Inr (None, None)"
    and "requested (fst (extract_pdf w (JObj m))) = []"
    using extract_pdf_unavailable [of m ai p w] by blast+
next
  assume h: "truthy (lower_get kvs ''url'') \<and> truthy (lower_get kvs ''title'') \<and>
    resolve (lower_get kvs ''url'') = Inr (Some (k, i)) \<and> select_exists k i rows = Inr False \<and>
    download w \<lparr>kind = k, src_id = Some i,
        book = Some (i, lower_get kvs ''title'',
                     py_or (lower_get kvs ''author'') (JStr ''Unknown''),
                     py_or (lower_get kvs ''category'') (JStr ''Uncategorized''))\<rparr>
      = (evs', Inr (None, url'))"
  then show "process_item w n idx (JObj kvs) rows =
          (Log Info (Progress idx n) # Log Info (Downloading i (domain k)) # evs'
             @ [Log Warning (FailedToStore i), Sleep 1], None, rows)"
    by (simp add: process_item_request request_def downloader_of_def store_in_db_def)
qed

theorem no_text_no_row_witness:
  "snd (download offline moby_request) = Inr (None, None) \<and>
   snd (store_in_db offline moby_request []) = (None, []) \<and>
   last (fst (store_in_db offline moby_request [])) = Log Warning (FailedToStore (IntId 1)) \<and>
   snd (extract_pdf offline unavailable) = Inr (None, None) \<and>
   requested (fst (extract_pdf offline unavailable)) = [] \<and>
   snd (process_item offline 1 1 (JObj moby) []) = (None, [])"
proof -
  have b: "book moby_request = Some (IntId 1, JStr ''Moby Dick'', JStr ''Unknown'', JStr ''Uncategorized'')"
    by (simp add: moby_request_def)
  have d: "snd (download offline moby_request) = Inr (None, None)"
    by code_simp
  then have dp: "download offline moby_request = (fst (download offline moby_request), Inr (None, None))"
    by (metis prod.collapse)
  have u: "truthy (lower_get moby ''url'')" by code_simp
  have t: "truthy (lower_get moby ''title'')" by code_simp
  have r: "resolve (lower_get moby ''url'') = Inr (Some (Gutenberg, IntId 1))" by code_simp
  have e: "select_exists Gutenberg (IntId 1) [] = Inr False" by code_simp
  have m: "\<lparr>kind = Gutenberg, src_id = Some (IntId 1),
        book = Some (IntId 1, lower_get moby ''title'',
                     py_or (lower_get moby ''author'') (JStr ''Unknown''),
                     py_or (lower_get moby ''category'') (JStr ''Uncategorized''))\<rparr>
      = moby_request"
    by code_simp
  note th = no_text_no_row [of moby_request "IntId 1" "JStr ''Moby Dick''" "JStr ''Unknown''"
      "JStr ''Uncategorized''" offline "fst (download offline moby_request)" None None "[]"
      "[(''accessInfo'', JObj [(''pdf'', JObj [(''isAvailable'', JBool False)])])]"
      "[(''pdf'', JObj [(''isAvailable'', JBool False)])]" "[(''isAvailable'', JBool False)]"
      moby Gutenberg "IntId 1" "fst (download offline moby_request)" None 1 1]
  from th b dp have s: "store_in_db offline moby_request [] =
      (Log Info (Downloading (IntId 1) (domain (kind moby_request))) # fst (download offline moby_request)
         @ [Log Warning (FailedToStore (IntId 1))], None, [])"
    by blast
  from th have x: "snd (extract_pdf offline unavailable) = Inr (None, None) \<and>
      requested (fst (extract_pdf offline unavailable)) = []"
    by (simp add: unavailable_def)
  from m dp have dm: "download offline \<lparr>kind = Gutenberg, src_id = Some (IntId 1),
        book = Some (IntId 1, lower_get moby ''title'',
                     py_or (lower_get moby ''author'') (JStr ''Unknown''),
                     py_or (lower_get moby ''category'') (JStr ''Uncategorized''))\<rparr>
      = (fst (download offline moby_request), Inr (None, None))"
    by metis
  from th u t r e dm have p: "process_item offline 1 1 (JObj moby) [] =
          (Log Info (Progress 1 1) # Log Info (Downloading (IntId 1) (domain Gutenberg))
             # fst (download offline moby_request)
             @ [Log Warning (FailedToStore (IntId 1)), Sleep 1], None, [])"
    by blast
  have s': "snd (store_in_db offline moby_request []) = (None, [])"
    and l: "last (fst (store_in_db offline moby_request [])) = Log Warning (FailedToStore (IntId 1))"
    by (simp_all add: s)
  have p': "snd (process_item offline 1 1 (JObj moby) []) = (None, [])"
    by (subst p) simp
  from d s' l x p' show ?thesis by blast
qed

subsection \<open>Pacing\<close>

lemma quiet_simps [simp]:
  "quiet []"
  "quiet (e # evs) \<longleftrightarrow> \<not> is_pause e \<and> \<not> attempt_end e \<and> quiet evs"
  "quiet (xs @ ys) \<longleftrightarrow> quiet xs \<and> quiet ys"
  by (auto simp: quiet_def)

lemma paced_from_quiet: "quiet xs \<Longrightarrow> paced_from False (xs @ ys) = paced_from False ys"
  by (induction xs) auto

lemma paced_from_append:
  "paced_from p xs \<Longrightarrow> paced_from False ys \<Longrightarrow> paced_from p (xs @ ys)"
  by (induction xs arbitrary: p) (auto split: if_splits)

lemma download_text_quiet: "quiet (fst (download_text w urls))"
  by (induction urls) (auto split: http_result.splits prod.splits)

lemma get_json_quiet: "quiet (fst (get_json w url))"
  by (auto simp: get_json_def split: http_result.splits option.splits)

lemma extract_text_from_pdf_quiet: "quiet (fst (extract_text_from_pdf w pdf))"
  by (auto simp: extract_text_from_pdf_def split: option.splits)

lemma extract_ocr_from_pdf_quiet: "quiet (fst (extract_ocr_from_pdf w pdf))"
  by (auto simp: extract_ocr_from_pdf_def split: option.splits)

lemma convert_pdf_to_text_quiet: "quiet (fst (convert_pdf_to_text w pdf))"
  using extract_text_from_pdf_quiet [of w pdf] extract_ocr_from_pdf_quiet [of w pdf]
  by (auto simp: convert_pdf_to_text_def split: prod.splits option.splits)

lemma pdf_get_quiet: "quiet (fst (pdf_get w link))"
  by (auto simp: pdf_get_def split: json.splits)

lemma extract_pdf_quiet: "quiet (fst (extract_pdf w meta))"
proof -
  have c: "convert_pdf_to_text w pdf = (evs, t) \<Longrightarrow> quiet evs" for pdf evs t
    using convert_pdf_to_text_quiet [of w pdf] by simp
  have g: "pdf_get w link = (evs, r) \<Longrightarrow> quiet evs" for link evs r
    using pdf_get_quiet [of w link] by simp
  show ?thesis
    by (auto simp: extract_pdf_def Let_def dest: c g
             split: sum.splits prod.splits http_result.splits)
qed

lemma gb_download_quiet: "quiet (fst (gb_download w i))"
proof -
  have x: "extract_pdf w meta = (evs, r) \<Longrightarrow> quiet evs" for meta evs r
    using extract_pdf_quiet [of w meta] by simp
  show ?thesis
    using get_json_quiet [of w "volume_url w i"]
    by (auto simp: gb_download_def dest: x split: prod.splits option.splits)
qed

lemma text_download_quiet: "quiet (fst (text_download w urls))"
  using download_text_quiet [of w urls]
  by (auto simp: text_download_def split: prod.splits option.splits)

lemma download_quiet: "quiet (fst (download w d))"
proof -
  have t: "text_download w urls = (evs, r) \<Longrightarrow> quiet evs" for urls evs r
    using text_download_quiet [of w urls] by simp
  show ?thesis
    using gb_download_quiet [of w]
    by (auto simp: download_def dest: t split: option.splits source_kind.splits prod.splits)
qed

lemma store_in_db_paced:
  "store_in_db w d rows = (evs, r, rows') \<Longrightarrow>
     (case r of None \<Rightarrow> paced_from False (evs @ [Sleep 1]) | Some e \<Rightarrow> quiet evs)"
proof -
  assume a: "store_in_db w d rows = (evs, r, rows')"
  obtain q res where d: "download w d = (q, res)"
    by (cases "download w d")
  then have q: "quiet q"
    using download_quiet [of w d] by simp
  have pq: "paced_from False (q @ ys) = paced_from False ys" for ys
    using q by (rule paced_from_quiet)
  show ?thesis
  proof (cases "book d")
    case None
    then have "store_in_db w d rows = ([], Some TypeError, rows)"
      by (simp add: store_in_db_def)
    with a have "evs = []" "r = Some TypeError"
      by simp_all
    then show ?thesis by simp
  next
    case (Some b)
    obtain tid t au c where b: "book d = Some (tid, t, au, c)"
      using Some by (cases b) simp
    let ?start = "Log Info (Downloading tid (domain (kind d)))"
    show ?thesis
    proof (cases res)
      case (Inl e)
      with d b have "store_in_db w d rows = (?start # q, Some e, rows)"
        by (simp add: store_in_db_def)
      with a have "evs = ?start # q" "r = Some e"
        by simp_all
      with q show ?thesis by simp
    next
      case (Inr p)
      obtain tx url where p: "res = Inr (tx, url)"
        using Inr by (cases p) simp
      show ?thesis
      proof (cases "tx = None \<or> tx = Some []")
        case True
        with d b p have "store_in_db w d rows = (?start # q @ [Log Warning (FailedToStore tid)], None, rows)"
          by (auto simp: store_in_db_def)
        with a have "evs = ?start # q @ [Log Warning (FailedToStore tid)]" "r = None"
          by simp_all
        then show ?thesis by (simp add: pq)
      next
        case False
        then obtain x where x: "tx = Some x" "x \<noteq> []"
          by auto
        show ?thesis
        proof (cases "insert_book (kind d) tid au t c url x rows")
          case (Inl e)
          with d b p x have "store_in_db w d rows = (?start # q, Some e, rows)"
            by (simp add: store_in_db_def)
          with a have "evs = ?start # q" "r = Some e"
            by simp_all
          with q show ?thesis by simp
        next
          case r: (Inr rows2)
          with d b p x have "store_in_db w d rows
              = (?start # q @ [Log Info (StoredSuccessfully tid)], None, rows2)"
            by (simp add: store_in_db_def)
          with a have "evs = ?start # q @ [Log Info (StoredSuccessfully tid)]" "r = None"
            by simp_all
          then show ?thesis by (simp add: pq)
        qed
      qed
    qed
  qed
qed

lemma process_item_paced: "paced_from False (fst (process_item w n idx item rows))"
proof (cases "request item")
  case (Inl e)
  then show ?thesis
    by (simp add: process_item_request)
next
  case (Inr ro)
  show ?thesis
  proof (cases ro)
    case None
    with Inr show ?thesis
      by (simp add: process_item_request)
  next
    case (Some req)
    obtain k i t a c where req: "req = (k, i, t, a, c)"
      by (cases req)
    show ?thesis
    proof (cases "select_exists k i rows")
      case (Inl e)
      with Inr Some req show ?thesis
        by (simp add: process_item_request)
    next
      case ex: (Inr found)
      show ?thesis
      proof (cases found)
        case True
        with Inr Some req ex show ?thesis
          by (simp add: process_item_request)
      next
        case False
        obtain evs r rows' where s: "store_in_db w (downloader_of k i t a c) rows = (evs, r, rows')"
          by (cases "store_in_db w (downloader_of k i t a c) rows")
        note sp = store_in_db_paced [OF s]
        show ?thesis
        proof (cases r)
          case None
          with Inr Some req ex False s sp show ?thesis
            by (simp add: process_item_request)
        next
          case (Some e)
          with sp have "quiet evs" by simp
          then have "paced_from False evs"
            using paced_from_quiet [of evs "[]"] by simp
          with Inr \<open>ro = Some req\<close> req ex False s Some show ?thesis
            by (simp add: process_item_request)
        qed
      qed
    qed
  qed
qed

lemma process_items_paced: "paced_from False (fst (process_items w n idx items rows))"
proof (induction items arbitrary: idx rows)
  case Nil
  then show ?case by simp
next
  case (Cons item items)
  obtain evs r rows' where p: "process_item w n idx item rows = (evs, r, rows')"
    by (cases "process_item w n idx item rows")
  then have e: "paced_from False evs"
    using process_item_paced [of w n idx item rows] by simp
  show ?case
  proof (cases r)
    case None
    obtain evs' r' rows'' where ps: "process_items w n (Suc idx) items rows' = (evs', r', rows'')"
      by (cases "process_items w n (Suc idx) items rows'")
    then have "paced_from False evs'"
      using Cons.IH [of "Suc idx" rows'] by simp
    with e have "paced_from False (evs @ evs')"
      by (rule paced_from_append)
    with p None ps show ?thesis by simp
  next
    case (Some x)
    with p e show ?thesis by simp
  qed
qed

text \<open>
  C9. In the trace of a whole batch, every store attempt that ends (with a stored book or
  with a failed store) is directly followed by a pause of 1, and the trace has no other
  pause: between two store attempts the coordinator pauses for 1. A record that is
  dropped leaves no trace at all, one that is skipped leaves the one log line: neither
  pauses.
\<close>

theorem pause_after_each_store_attempt:
  "paced (fst (process_input w data rows)) \<and>
   (request item = Inr None \<longrightarrow> fst (process_item w n idx item rows) = []) \<and>
   (request item = Inr (Some (k, i, t, a, c)) \<and> select_exists k i rows = Inr True
      \<longrightarrow> fst (process_item w n idx item rows) = [Log Info (Skipping i)])"
  by (simp add: paced_def process_input_def process_items_paced process_item_request
           split: sum.splits)

theorem pause_after_each_store_attempt_witness:
  "paced (fst (process_input library batch [])) \<and>
   fst (process_input library batch []) =
     [Log Info (Progress 1 4),
      Log Info (Downloading (StrId ''abc'') ''books.google.''),
      Get ''https://www.googleapis.com/books/v1/volumes/abc'',
      Log Info NoDownloadablePdf,
      Log Warning (FailedToStore (StrId ''abc'')),
      Sleep 1,
      Log Info (Progress 3 4),
      Log Info (Downloading (IntId 1) ''gutenberg.org''),
      Get ''https://www.gutenberg.org/files/1/1-0.txt'',
      Log Info (StoredSuccessfully (IntId 1)),
      Sleep 1,
      Log Info (Skipping (IntId 1))] \<and>
   request untitled = Inr None \<and>
   fst (process_item library 4 2 untitled []) = [] \<and>
   request (JObj moby) = Inr (Some (Gutenberg, IntId 1, JStr ''Moby Dick'', JStr ''Unknown'', JStr ''Uncategorized'')) \<and>
   select_exists Gutenberg (IntId 1) shelf = Inr True \<and>
   fst (process_item library 4 4 (JObj moby) shelf) = [Log Info (Skipping (IntId 1))]"
proof -
  have t: "fst (process_input library batch []) =
     [Log Info (Progress 1 4),
      Log Info (Downloading (StrId ''abc'') ''books.google.''),
      Get ''https://www.googleapis.com/books/v1/volumes/abc'',
      Log Info NoDownloadablePdf,
      Log Warning (FailedToStore (StrId ''abc'')),
      Sleep 1,
      Log Info (Progress 3 4),
      Log Info (Downloading (IntId 1) ''gutenberg.org''),
      Get ''https://www.gutenberg.org/files/1/1-0.txt'',
      Log Info (StoredSuccessfully (IntId 1)),
      Sleep 1,
      Log Info (Skipping (IntId 1))]"
    by code_simp
  have u: "request untitled = Inr None"
    by code_simp
  have m: "request (JObj moby) = Inr (Some (Gutenberg, IntId 1, JStr ''Moby Dick'', JStr ''Unknown'', JStr ''Uncategorized''))"
    by code_simp
  have e: "select_exists Gutenberg (IntId 1) shelf = Inr True"
    by code_simp
  from pause_after_each_store_attempt [of library batch "[]" untitled 4 2]
  have p: "paced (fst (process_input library batch []))"
    and d: "request untitled = Inr None \<longrightarrow> fst (process_item library 4 2 untitled []) = []"
    by blast+
  from pause_after_each_store_attempt [of library batch shelf "JObj moby" 4 4 Gutenberg "IntId 1"
      "JStr ''Moby Dick''" "JStr ''Unknown''" "JStr ''Uncategorized''"] m e
  have s: "fst (process_item library 4 4 (JObj moby) shelf) = [Log Info (Skipping (IntId 1))]"
    by blast
  from p t u d m e s show ?thesis by blast
qed

section \<open>Properties of the store\<close>

lemma unique_ids_all: "unique_ids rows \<longleftrightarrow> (\<forall>k. unique_col k rows)"
proof
  assume "unique_ids rows"
  then show "\<forall>k. unique_col k rows"
    by (auto simp: unique_ids_def intro: source_kind.exhaust [of _ "unique_col _ rows"])
      (metis source_kind.exhaust)
next
  assume "\<forall>k. unique_col k rows"
  then show "unique_ids rows"
    by (simp add: unique_ids_def)
qed

lemma list_ex_id_col: "list_ex (\<lambda>r. id_col k r = v) rows \<longleftrightarrow> v \<in> set (map (id_col k) rows)"
  by (auto simp: list_ex_iff)

lemma id_col_update [simp]:
  "id_col k' (r\<lparr>title := t, category := c, source_url := u, content := x, author := a\<rparr>) = id_col k' r"
  by (cases k') simp_all

lemma id_col_new_row:
  "id_col k' (new_row k v a t c u x rows) = (if k' = k then v else SqlNull)"
  by (cases k'; cases k) (simp_all add: new_row_def)

lemma upsert_conflict_cols:
  "v \<noteq> SqlNull \<Longrightarrow> list_ex (\<lambda>r. id_col k r = v) rows \<Longrightarrow>
     map (id_col k') (upsert k v a t c u x rows) = map (id_col k') rows"
  by (simp add: upsert_def comp_def if_distrib [of "id_col k'"] cong: if_cong)

lemma upsert_unique_col:
  assumes "unique_col k' rows"
  shows "unique_col k' (upsert k v a t c u x rows)"
proof (cases "v \<noteq> SqlNull \<and> list_ex (\<lambda>r. id_col k r = v) rows")
  case True
  then show ?thesis
    using assms upsert_conflict_cols [of v k rows k' a t c u x]
    by (simp add: unique_col_def)
next
  case False
  then have u: "upsert k v a t c u x rows = rows @ [new_row k v a t c u x rows]"
    by (auto simp: upsert_def)
  from False have "v = SqlNull \<or> v \<notin> set (map (id_col k) rows)"
    by (auto simp: list_ex_id_col)
  with assms show ?thesis
    by (auto simp: u unique_col_def id_col_new_row)
qed

lemma upsert_unique_ids: "unique_ids rows \<Longrightarrow> unique_ids (upsert k v a t c u x rows)"
  by (simp add: unique_ids_def upsert_unique_col)

lemma insert_book_unique_ids:
  "unique_ids rows \<Longrightarrow> insert_book k tid a t c url x rows = Inr rows' \<Longrightarrow> unique_ids rows'"
  by (auto simp: insert_book_def upsert_unique_ids split: sum.splits)

text \<open>The table after \<open>store_in_db\<close>: the one that \<open>insert_book\<close> made when there is
  a text and the insert raises nothing, the old one otherwise.\<close>

lemma store_in_db_rows:
  "snd (snd (store_in_db w d rows)) = rows \<or>
   (\<exists>tid t a c url x. insert_book (kind d) tid a t c url x rows = Inr (snd (snd (store_in_db w d rows))))"
  by (auto simp: store_in_db_def split: option.splits sum.splits prod.splits)

lemma store_in_db_unique_ids:
  "unique_ids rows \<Longrightarrow> unique_ids (snd (snd (store_in_db w d rows)))"
  using store_in_db_rows [of w d rows] insert_book_unique_ids by metis

lemma store_all_unique_ids: "unique_ids rows \<Longrightarrow> unique_ids (store_all w ds rows)"
proof (induction ds arbitrary: rows)
  case Nil
  then show ?case by simp
next
  case (Cons d ds)
  obtain evs r rows' where s: "store_in_db w d rows = (evs, r, rows')"
    by (cases "store_in_db w d rows")
  with Cons.prems have u: "unique_ids rows'"
    using store_in_db_unique_ids [of rows w d] by simp
  show ?case
  proof (cases r)
    case None
    with s u Cons.IH show ?thesis by simp
  next
    case (Some e)
    with s u show ?thesis by simp
  qed
qed

lemma bind_id_json_not_null: "bind (id_json i) = Inr v \<Longrightarrow> v \<noteq> SqlNull"
  by (cases i) (auto split: if_splits)

lemma store_in_db_conflict:
  assumes "book d = Some (tid, t, a, c)" and "download w d = (evs, Inr (Some x, url))" and "x \<noteq> []"
    and "bind (id_json tid) = Inr v" and "bind_text a = Inr a'" and "bind_text t = Inr t'"
    and "bind_text c = Inr c'" and "bind_text (opt_json url) = Inr u'"
    and "list_ex (\<lambda>r. id_col (kind d) r = v) rows"
  shows "snd (snd (store_in_db w d rows)) =
     map (\<lambda>r. if id_col (kind d) r = v
               then r\<lparr>title := t', category := c', source_url := u', content := SqlText x, author := a'\<rparr>
               else r) rows"
    and "fst (snd (store_in_db w d rows)) = None"
proof -
  from assms(4) have "v \<noteq> SqlNull"
    by (rule bind_id_json_not_null)
  with assms have i: "insert_book (kind d) tid a t c url x rows =
     Inr (map (\<lambda>r. if id_col (kind d) r = v
               then r\<lparr>title := t', category := c', source_url := u', content := SqlText x, author := a'\<rparr>
               else r) rows)"
    by (simp add: insert_book_def upsert_def)
  from assms(1-3) i
  show "snd (snd (store_in_db w d rows)) =
     map (\<lambda>r. if id_col (kind d) r = v
               then r\<lparr>title := t', category := c', source_url := u', content := SqlText x, author := a'\<rparr>
               else r) rows"
    by (simp add: store_in_db_def)
  from assms(1-3) i show "fst (snd (store_in_db w d rows)) = None"
    by (simp add: store_in_db_def)
qed

text \<open>
  C3. Whatever sequence of \<open>store_in_db\<close> calls runs on a new database, no identifier
  column of the table ever holds the same non-null value in two rows, and one call keeps
  this true of any table. When the identifier of the call is already in its column and the
  download gives a text, the call raises nothing and adds no row: the rows keep their
  number, their \<open>id\<close> and their three identifier columns; the rows with that identifier
  get the new author, title, category, source URL and content, and every other row stays
  as it is.
\<close>

theorem upsert_keeps_identifiers_unique:
  "unique_ids (store_all w ds (init_database None)) \<and>
   (unique_ids rows \<longrightarrow> unique_ids (snd (snd (store_in_db w d rows)))) \<and>
   (book d = Some (tid, t, a, c) \<and> download w d = (evs, Inr (Some x, url)) \<and> x \<noteq> [] \<and>
    bind (id_json tid) = Inr v \<and> bind_text a = Inr a' \<and> bind_text t = Inr t' \<and>
    bind_text c = Inr c' \<and> bind_text (opt_json url) = Inr u' \<and>
    list_ex (\<lambda>r. id_col (kind d) r = v) rows
    \<longrightarrow> fst (snd (store_in_db w d rows)) = None \<and>
        length (snd (snd (store_in_db w d rows))) = length rows \<and>
        map rid (snd (snd (store_in_db w d rows))) = map rid rows \<and>
        (\<forall>k. map (id_col k) (snd (snd (store_in_db w d rows))) = map (id_col k) rows) \<and>
        (\<forall>j < length rows.
           if id_col (kind d) (rows ! j) = v
           then author (snd (snd (store_in_db w d rows)) ! j) = a' \<and>
                title (snd (snd (store_in_db w d rows)) ! j) = t' \<and>
                category (snd (snd (store_in_db w d rows)) ! j) = c' \<and>
                source_url (snd (snd (store_in_db w d rows)) ! j) = u' \<and>
                content (snd (snd (store_in_db w d rows)) ! j) = SqlText x
           else snd (snd (store_in_db w d rows)) ! j = rows ! j))"
proof (intro conjI impI)
  have "unique_ids []"
    by (simp add: unique_ids_def unique_col_def)
  then show "unique_ids (store_all w ds (init_database None))"
    by (simp add: init_database_def store_all_unique_ids)
next
  assume "unique_ids rows"
  then show "unique_ids (snd (snd (store_in_db w d rows)))"
    by (rule store_in_db_unique_ids)
next
  assume h: "book d = Some (tid, t, a, c) \<and> download w d = (evs, Inr (Some x, url)) \<and> x \<noteq> [] \<and>
    bind (id_json tid) = Inr v \<and> bind_text a = Inr a' \<and> bind_text t = Inr t' \<and>
    bind_text c = Inr c' \<and> bind_text (opt_json url) = Inr u' \<and>
    list_ex (\<lambda>r. id_col (kind d) r = v) rows"
  let ?rows' = "snd (snd (store_in_db w d rows))"
  from h have r: "?rows' =
     map (\<lambda>r. if id_col (kind d) r = v
               then r\<lparr>title := t', category := c', source_url := u', content := SqlText x, author := a'\<rparr>
               else r) rows"
    and n: "fst (snd (store_in_db w d rows)) = None"
    using store_in_db_conflict [of d tid t a c w evs x url v a' t' c' u' rows] by blast+
  show "fst (snd (store_in_db w d rows)) = None"
    by (rule n)
  show "length ?rows' = length rows"
    by (simp add: r)
  show "map rid ?rows' = map rid rows"
    by (simp add: r comp_def if_distrib [of rid] cong: if_cong)
  show "\<forall>k. map (id_col k) ?rows' = map (id_col k) rows"
  proof
    fix k
    show "map (id_col k) ?rows' = map (id_col k) rows"
      by (simp add: r comp_def if_distrib [of "id_col k"] cong: if_cong)
  qed
  show "\<forall>j < length rows.
           if id_col (kind d) (rows ! j) = v
           then author (?rows' ! j) = a' \<and> title (?rows' ! j) = t' \<and>
                category (?rows' ! j) = c' \<and> source_url (?rows' ! j) = u' \<and>
                content (?rows' ! j) = SqlText x
           else ?rows' ! j = rows ! j"
    by (simp add: r)
qed

theorem upsert_keeps_identifiers_unique_witness:
  "unique_ids (store_all library [moby_request, whale_request] (init_database None)) \<and>
   store_all library [moby_request, whale_request] (init_database None) =
     [\<lparr>rid = 1, gutenberg_id = SqlInt 1, ia_title_id = SqlNull, gb_title_id = SqlNull,
       author = SqlText ''Herman Melville'', title = SqlText ''The Whale'',
       category = SqlText ''Novel'',
       source_url = SqlText ''https://www.gutenberg.org/files/1/1-0.txt'',
       content = SqlText ''Call me Ishmael.''\<rparr>] \<and>
   unique_ids shelf \<and>
   unique_ids (snd (snd (store_in_db library whale_request shelf))) \<and>
   list_ex (\<lambda>r. id_col Gutenberg r = SqlInt 1) shelf \<and>
   length (snd (snd (store_in_db library whale_request shelf))) = length shelf \<and>
   map rid (snd (snd (store_in_db library whale_request shelf))) = map rid shelf \<and>
   map (id_col Gutenberg) (snd (snd (store_in_db library whale_request shelf))) = [SqlInt 1] \<and>
   title (snd (snd (store_in_db library whale_request shelf)) ! 0) = SqlText ''The Whale''"
proof -
  have s: "store_all library [moby_request, whale_request] (init_database None) =
     [\<lparr>rid = 1, gutenberg_id = SqlInt 1, ia_title_id = SqlNull, gb_title_id = SqlNull,
       author = SqlText ''Herman Melville'', title = SqlText ''The Whale'',
       category = SqlText ''Novel'',
       source_url = SqlText ''https://www.gutenberg.org/files/1/1-0.txt'',
       content = SqlText ''Call me Ishmael.''\<rparr>]"
    by code_simp
  have u: "unique_ids shelf" by code_simp
  have b: "book whale_request = Some (IntId 1, JStr ''The Whale'', JStr ''Herman Melville'', JStr ''Novel'')"
    and k: "kind whale_request = Gutenberg"
    by (simp_all add: whale_request_def)
  have d: "download library whale_request
      = ([Get ''https://www.gutenberg.org/files/1/1-0.txt''],
         Inr (Some ''Call me Ishmael.'', Some ''https://www.gutenberg.org/files/1/1-0.txt''))"
    by code_simp
  have v: "bind (id_json (IntId 1)) = Inr (SqlInt 1)" by simp
  have a: "bind_text (JStr ''Herman Melville'') = Inr (SqlText ''Herman Melville'')"
    and t: "bind_text (JStr ''The Whale'') = Inr (SqlText ''The Whale'')"
    and c: "bind_text (JStr ''Novel'') = Inr (SqlText ''Novel'')"
    and l: "bind_text (opt_json (Some ''https://www.gutenberg.org/files/1/1-0.txt''))
              = Inr (SqlText ''https://www.gutenberg.org/files/1/1-0.txt'')"
    by (simp_all add: bind_text_def)
  have e: "list_ex (\<lambda>r. id_col Gutenberg r = SqlInt 1) shelf"
    by (simp add: shelf_def)
  have g: "map (id_col Gutenberg) shelf = [SqlInt 1]" and z: "0 < length shelf"
    and i0: "id_col Gutenberg (shelf ! 0) = SqlInt 1"
    by (simp_all add: shelf_def)
  note th = upsert_keeps_identifiers_unique [of library "[moby_request, whale_request]" shelf
      whale_request "IntId 1" "JStr ''The Whale''" "JStr ''Herman Melville''" "JStr ''Novel''"
      "[Get ''https://www.gutenberg.org/files/1/1-0.txt'']" "''Call me Ishmael.''"
      "Some ''https://www.gutenberg.org/files/1/1-0.txt''" "SqlInt 1"
      "SqlText ''Herman Melville''" "SqlText ''The Whale''" "SqlText ''Novel''"
      "SqlText ''https://www.gutenberg.org/files/1/1-0.txt''"]
  from th have 1: "unique_ids (store_all library [moby_request, whale_request] (init_database None))"
    by blast
  from th u have 2: "unique_ids (snd (snd (store_in_db library whale_request shelf)))"
    by blast
  have hyp: "book whale_request = Some (IntId 1, JStr ''The Whale'', JStr ''Herman Melville'', JStr ''Novel'') \<and>
     download library whale_request
      = ([Get ''https://www.gutenberg.org/files/1/1-0.txt''],
         Inr (Some ''Call me Ishmael.'', Some ''https://www.gutenberg.org/files/1/1-0.txt'')) \<and>
     ''Call me Ishmael.'' \<noteq> [] \<and>
     bind (id_json (IntId 1)) = Inr (SqlInt 1) \<and>
     bind_text (JStr ''Herman Melville'') = Inr (SqlText ''Herman Melville'') \<and>
     bind_text (JStr ''The Whale'') = Inr (SqlText ''The Whale'') \<and>
     bind_text (JStr ''Novel'') = Inr (SqlText ''Novel'') \<and>
     bind_text (opt_json (Some ''https://www.gutenberg.org/files/1/1-0.txt''))
        = Inr (SqlText ''https://www.gutenberg.org/files/1/1-0.txt'') \<and>
     list_ex (\<lambda>r. id_col (kind whale_request) r = SqlInt 1) shelf"
    using b d v a t c l e k by simp
  from th hyp have 3: "length (snd (snd (store_in_db library whale_request shelf))) = length shelf"
    and 4: "map rid (snd (snd (store_in_db library whale_request shelf))) = map rid shelf"
    and 5: "\<forall>k. map (id_col k) (snd (snd (store_in_db library whale_request shelf))) = map (id_col k) shelf"
    and 6: "\<forall>j < length shelf.
           if id_col (kind whale_request) (shelf ! j) = SqlInt 1
           then author (snd (snd (store_in_db library whale_request shelf)) ! j) = SqlText ''Herman Melville'' \<and>
                title (snd (snd (store_in_db library whale_request shelf)) ! j) = SqlText ''The Whale'' \<and>
                category (snd (snd (store_in_db library whale_request shelf)) ! j) = SqlText ''Novel'' \<and>
                source_url (snd (snd (store_in_db library whale_request shelf)) ! j)
                  = SqlText ''https://www.gutenberg.org/files/1/1-0.txt'' \<and>
                content (snd (snd (store_in_db library whale_request shelf)) ! j) = SqlText ''Call me Ishmael.''
           else snd (snd (store_in_db library whale_request shelf)) ! j = shelf ! j"
    by blast+
  from 5 g have 7: "map (id_col Gutenberg) (snd (snd (store_in_db library whale_request shelf))) = [SqlInt 1]"
    by simp
  from 6 z i0 k have 8: "title (snd (snd (store_in_db library whale_request shelf)) ! 0) = SqlText ''The Whale''"
    by (metis (no_types, lifting))
  from 1 s u 2 e 3 4 7 8 show ?thesis by blast
qed

section \<open>Idempotence of a batch\<close>

lemma has_id_set: "has_id rows k v \<longleftrightarrow> v \<in> set (map (id_col k) rows)"
  by (simp add: has_id_def list_ex_id_col)

lemma has_id_upsert_mono: "has_id rows k' v' \<Longrightarrow> has_id (upsert k v a t c u x rows) k' v'"
proof (cases "v \<noteq> SqlNull \<and> list_ex (\<lambda>r. id_col k r = v) rows")
  case True
  assume "has_id rows k' v'"
  with True show ?thesis
    using upsert_conflict_cols [of v k rows k' a t c u x] by (simp add: has_id_set)
next
  case False
  assume "has_id rows k' v'"
  moreover from False have "upsert k v a t c u x rows = rows @ [new_row k v a t c u x rows]"
    by (auto simp: upsert_def)
  ultimately show ?thesis
    by (simp add: has_id_set)
qed

lemma has_id_upsert: "v \<noteq> SqlNull \<Longrightarrow> has_id (upsert k v a t c u x rows) k v"
proof (cases "list_ex (\<lambda>r. id_col k r = v) rows")
  case True
  assume "v \<noteq> SqlNull"
  with True show ?thesis
    using upsert_conflict_cols [of v k rows k a t c u x] by (simp add: has_id_set list_ex_id_col)
next
  case False
  then have "upsert k v a t c u x rows = rows @ [new_row k v a t c u x rows]"
    by (auto simp: upsert_def)
  then show ?thesis
    by (simp add: has_id_set id_col_new_row)
qed

lemma select_exists_has_id:
  "bind (id_json i) = Inr v \<Longrightarrow> select_exists k i rows = Inr (has_id rows k v)"
  by (simp add: select_exists_def has_id_def bind_id_json_not_null)

lemma select_exists_raises:
  "bind (id_json i) = Inl e \<Longrightarrow> select_exists k i rows = Inl e"
  by (simp add: select_exists_def)

text \<open>Whether \<open>insert_book\<close> raises does not depend on the table.\<close>

lemma insert_book_cases:
  "(\<exists>e. \<forall>rows. insert_book k tid a t c url x rows = Inl e) \<or>
   (\<exists>v a' t' c' u'. bind (id_json tid) = Inr v \<and>
      (\<forall>rows. insert_book k tid a t c url x rows = Inr (upsert k v a' t' c' u' (SqlText x) rows)))"
proof (cases "bind (id_json tid)")
  case (Inl e)
  then show ?thesis by (simp add: insert_book_def)
next
  case v: (Inr v)
  show ?thesis
  proof (cases "bind_text a")
    case (Inl e)
    with v show ?thesis by (simp add: insert_book_def)
  next
    case a': (Inr a')
    show ?thesis
    proof (cases "bind_text t")
      case (Inl e)
      with v a' show ?thesis by (simp add: insert_book_def)
    next
      case t': (Inr t')
      show ?thesis
      proof (cases "bind_text c")
        case (Inl e)
        with v a' t' show ?thesis by (simp add: insert_book_def)
      next
        case c': (Inr c')
        show ?thesis
        proof (cases "bind_text (opt_json url)")
          case (Inl e)
          with v a' t' c' show ?thesis by (simp add: insert_book_def)
        next
          case u': (Inr u')
          with v a' t' c' have "\<forall>rows. insert_book k tid a t c url x rows
              = Inr (upsert k v a' t' c' u' (SqlText x) rows)"
            by (simp add: insert_book_def)
          with v show ?thesis by blast
        qed
      qed
    qed
  qed
qed

text \<open>A call of \<open>store_in_db\<close> either leaves every table as it is, with the same trace
  and the same exception or none, or it raises nothing and puts its identifier into every
  table.\<close>

lemma store_in_db_cases:
  "(\<exists>evs r. \<forall>rows. store_in_db w (downloader_of k i t a c) rows = (evs, r, rows)) \<or>
   (\<exists>v. bind (id_json i) = Inr v \<and>
      (\<forall>rows. fst (snd (store_in_db w (downloader_of k i t a c) rows)) = None \<and>
              has_id (snd (snd (store_in_db w (downloader_of k i t a c) rows))) k v \<and>
              (\<forall>k' v'. has_id rows k' v'
                 \<longrightarrow> has_id (snd (snd (store_in_db w (downloader_of k i t a c) rows))) k' v')))"
proof -
  let ?d = "downloader_of k i t a c"
  have b: "book ?d = Some (i, t, a, c)" and kd: "kind ?d = k"
    by (simp_all add: downloader_of_def)
  obtain q res where d: "download w ?d = (q, res)"
    by (cases "download w ?d")
  show ?thesis
  proof (cases res)
    case (Inl e)
    with b d have "\<forall>rows. store_in_db w ?d rows
        = (Log Info (Downloading i (domain (kind ?d))) # q, Some e, rows)"
      by (simp add: store_in_db_def)
    then show ?thesis by blast
  next
    case (Inr p)
    obtain tx url where p: "res = Inr (tx, url)"
      using Inr by (cases p) simp
    show ?thesis
    proof (cases "tx = None \<or> tx = Some []")
      case True
      with b d p have "\<forall>rows. store_in_db w ?d rows
          = (Log Info (Downloading i (domain (kind ?d))) # q @ [Log Warning (FailedToStore i)], None, rows)"
        by (auto simp: store_in_db_def)
      then show ?thesis by blast
    next
      case False
      then obtain x where x: "tx = Some x" "x \<noteq> []"
        by auto
      from insert_book_cases [of k i a t c url x] show ?thesis
      proof
        assume "\<exists>e. \<forall>rows. insert_book k i a t c url x rows = Inl e"
        then obtain e where "\<forall>rows. insert_book k i a t c url x rows = Inl e" ..
        with b kd d p x have "\<forall>rows. store_in_db w ?d rows
            = (Log Info (Downloading i (domain (kind ?d))) # q, Some e, rows)"
          by (simp add: store_in_db_def)
        then show ?thesis by blast
      next
        assume "\<exists>v a' t' c' u'. bind (id_json i) = Inr v \<and>
          (\<forall>rows. insert_book k i a t c url x rows = Inr (upsert k v a' t' c' u' (SqlText x) rows))"
        then obtain v a' t' c' u' where v: "bind (id_json i) = Inr v"
          and ib: "\<And>rows. insert_book k i a t c url x rows = Inr (upsert k v a' t' c' u' (SqlText x) rows)"
          by blast
        have s: "store_in_db w ?d rows
            = (Log Info (Downloading i (domain (kind ?d))) # q @ [Log Info (StoredSuccessfully i)],
               None, upsert k v a' t' c' u' (SqlText x) rows)" for rows
          using b kd d p x ib [of rows] by (simp add: store_in_db_def)
        from v have "v \<noteq> SqlNull"
          by (rule bind_id_json_not_null)
        then have "\<forall>rows. fst (snd (store_in_db w ?d rows)) = None \<and>
              has_id (snd (snd (store_in_db w ?d rows))) k v \<and>
              (\<forall>k' v'. has_id rows k' v' \<longrightarrow> has_id (snd (snd (store_in_db w ?d rows))) k' v')"
          by (simp add: s has_id_upsert has_id_upsert_mono)
        with v show ?thesis by blast
      qed
    qed
  qed
qed

lemma process_item_store:
  "request item = Inr (Some (k, i, t, a, c)) \<Longrightarrow> select_exists k i rows = Inr False \<Longrightarrow>
     snd (process_item w n idx item rows) = snd (store_in_db w (downloader_of k i t a c) rows)"
  by (cases "store_in_db w (downloader_of k i t a c) rows")
     (auto simp: process_item_request split: option.splits)

text \<open>How the outcome of a turn of the loop depends on the table: not at all but for
  leaving it as it is; or through the test for one identifier only, leaving it as it is;
  or the turn raises nothing, leaves a table with the identifier as it is and puts the
  identifier into any other.\<close>

lemma process_item_cases:
  "(\<exists>r. \<forall>rows n idx. snd (process_item w n idx item rows) = (r, rows)) \<or>
   (\<exists>k v r. \<forall>rows n idx.
      snd (process_item w n idx item rows) = (if has_id rows k v then None else r, rows)) \<or>
   (\<exists>k v. \<forall>rows n idx.
      fst (snd (process_item w n idx item rows)) = None \<and>
      (has_id rows k v \<longrightarrow> snd (snd (process_item w n idx item rows)) = rows) \<and>
      has_id (snd (snd (process_item w n idx item rows))) k v \<and>
      (\<forall>k' v'. has_id rows k' v' \<longrightarrow> has_id (snd (snd (process_item w n idx item rows))) k' v'))"
proof (cases "request item")
  case (Inl e)
  then have "\<forall>rows n idx. snd (process_item w n idx item rows) = (Some e, rows)"
    by (simp add: process_item_request)
  then show ?thesis by blast
next
  case (Inr ro)
  show ?thesis
  proof (cases ro)
    case None
    with Inr have "\<forall>rows n idx. snd (process_item w n idx item rows) = (None, rows)"
      by (simp add: process_item_request)
    then show ?thesis by blast
  next
    case (Some req)
    obtain k i t a c where req: "request item = Inr (Some (k, i, t, a, c))"
      using Inr Some by (cases req) simp
    show ?thesis
    proof (cases "bind (id_json i)")
      case (Inl e)
      then have "\<forall>rows n idx. snd (process_item w n idx item rows) = (Some e, rows)"
        by (simp add: process_item_request req select_exists_raises)
      then show ?thesis by blast
    next
      case v: (Inr v)
      have ex: "select_exists k i rows = Inr (has_id rows k v)" for rows
        using v by (rule select_exists_has_id)
      have skip: "has_id rows k v \<Longrightarrow> snd (process_item w n idx item rows) = (None, rows)"
        for rows n idx
        by (simp add: process_item_request req ex)
      have store: "\<not> has_id rows k v \<Longrightarrow>
          snd (process_item w n idx item rows) = snd (store_in_db w (downloader_of k i t a c) rows)"
        for rows n idx
        using process_item_store [OF req, of rows w n idx] by (simp add: ex)
      from store_in_db_cases [of w k i t a c] show ?thesis
      proof
        assume "\<exists>evs r. \<forall>rows. store_in_db w (downloader_of k i t a c) rows = (evs, r, rows)"
        then obtain evs r where s: "\<And>rows. store_in_db w (downloader_of k i t a c) rows = (evs, r, rows)"
          by blast
        have "\<forall>rows n idx.
            snd (process_item w n idx item rows) = (if has_id rows k v then None else r, rows)"
          by (simp add: skip store s)
        then show ?thesis by blast
      next
        assume "\<exists>v. bind (id_json i) = Inr v \<and>
          (\<forall>rows. fst (snd (store_in_db w (downloader_of k i t a c) rows)) = None \<and>
              has_id (snd (snd (store_in_db w (downloader_of k i t a c) rows))) k v \<and>
              (\<forall>k' v'. has_id rows k' v'
                 \<longrightarrow> has_id (snd (snd (store_in_db w (downloader_of k i t a c) rows))) k' v'))"
        with v have s: "\<And>rows. fst (snd (store_in_db w (downloader_of k i t a c) rows)) = None \<and>
              has_id (snd (snd (store_in_db w (downloader_of k i t a c) rows))) k v \<and>
              (\<forall>k' v'. has_id rows k' v'
                 \<longrightarrow> has_id (snd (snd (store_in_db w (downloader_of k i t a c) rows))) k' v')"
          by simp
        have "\<forall>rows n idx.
            fst (snd (process_item w n idx item rows)) = None \<and>
            (has_id rows k v \<longrightarrow> snd (snd (process_item w n idx item rows)) = rows) \<and>
            has_id (snd (snd (process_item w n idx item rows))) k v \<and>
            (\<forall>k' v'. has_id rows k' v' \<longrightarrow> has_id (snd (snd (process_item w n idx item rows))) k' v')"
        proof (intro allI)
          fix rows n idx
          show "fst (snd (process_item w n idx item rows)) = None \<and>
            (has_id rows k v \<longrightarrow> snd (snd (process_item w n idx item rows)) = rows) \<and>
            has_id (snd (snd (process_item w n idx item rows))) k v \<and>
            (\<forall>k' v'. has_id rows k' v' \<longrightarrow> has_id (snd (snd (process_item w n idx item rows))) k' v')"
          proof (cases "has_id rows k v")
            case True
            then show ?thesis
              by (simp add: skip)
          next
            case False
            then show ?thesis
              using s [of rows] by (simp add: store)
          qed
        qed
        then show ?thesis by blast
      qed
    qed
  qed
qed

lemma process_item_mono:
  "has_id rows k v \<Longrightarrow> has_id (snd (snd (process_item w n idx item rows))) k v"
  using process_item_cases [of w item] by (elim disjE exE) (simp_all split: if_splits)

lemma process_item_stable:
  assumes "\<forall>k v. has_id (snd (snd (process_item w n idx item rows))) k v \<longrightarrow> has_id rows2 k v"
  shows "snd (snd (process_item w n2 idx2 item rows2)) = rows2"
  using process_item_cases [of w item] assms
  by (elim disjE exE) (simp, simp, blast)

lemma process_item_raise:
  assumes "fst (snd (process_item w n idx item rows)) = Some e"
    and "\<forall>k v. has_id rows2 k v \<longleftrightarrow> has_id rows k v"
  shows "snd (process_item w n2 idx2 item rows2) = (Some e, rows2)"
    and "snd (snd (process_item w n idx item rows)) = rows"
  using process_item_cases [of w item] assms
  by (elim disjE exE; simp split: if_splits)+

lemma process_items_step:
  "process_items w n idx (item # items) rows =
     (case fst (snd (process_item w n idx item rows)) of
        Some e \<Rightarrow> process_item w n idx item rows
      | None \<Rightarrow>
          (fst (process_item w n idx item rows)
             @ fst (process_items w n (Suc idx) items (snd (snd (process_item w n idx item rows)))),
           snd (process_items w n (Suc idx) items (snd (snd (process_item w n idx item rows))))))"
  by (cases "process_item w n idx item rows")
     (auto split: option.splits prod.splits)

lemma process_items_mono:
  "has_id rows k v \<Longrightarrow> has_id (snd (snd (process_items w n idx items rows))) k v"
proof (induction items arbitrary: idx rows)
  case Nil
  then show ?case by simp
next
  case (Cons item items)
  from Cons.prems have m: "has_id (snd (snd (process_item w n idx item rows))) k v"
    by (rule process_item_mono)
  show ?case
  proof (cases "fst (snd (process_item w n idx item rows))")
    case None
    with Cons.IH [OF m] show ?thesis
      by (simp add: process_items_step del: process_items.simps(2))
  next
    case (Some e)
    with m show ?thesis
      by (simp add: process_items_step del: process_items.simps(2))
  qed
qed

text \<open>A second run leaves the table of the first run as it is, and so any table with
  the same identifiers.\<close>

lemma process_items_again:
  "\<forall>k v. has_id rows2 k v \<longleftrightarrow> has_id (snd (snd (process_items w n idx items rows))) k v \<Longrightarrow>
     snd (snd (process_items w n2 idx2 items rows2)) = rows2"
proof (induction items arbitrary: idx idx2 rows)
  case Nil
  then show ?case by simp
next
  case (Cons item items)
  let ?rows1 = "snd (snd (process_item w n idx item rows))"
  show ?case
  proof (cases "fst (snd (process_item w n idx item rows))")
    case (Some e)
    have r: "?rows1 = rows"
      using process_item_raise(2) [OF Some, of rows] by simp
    from Some Cons.prems have "\<forall>k v. has_id rows2 k v \<longleftrightarrow> has_id rows k v"
      by (simp add: process_items_step r del: process_items.simps(2))
    from process_item_raise(1) [OF Some this]
    show ?thesis
      by (simp add: process_items_step del: process_items.simps(2))
  next
    case None
    let ?rows' = "snd (snd (process_items w n (Suc idx) items ?rows1))"
    from None Cons.prems have same: "\<forall>k v. has_id rows2 k v \<longleftrightarrow> has_id ?rows' k v"
      by (simp add: process_items_step del: process_items.simps(2))
    have "\<forall>k v. has_id ?rows1 k v \<longrightarrow> has_id rows2 k v"
      using same process_items_mono by blast
    then have st: "snd (snd (process_item w n2 idx2 item rows2)) = rows2"
      by (rule process_item_stable)
    show ?thesis
    proof (cases "fst (snd (process_item w n2 idx2 item rows2))")
      case (Some e)
      with st show ?thesis
        by (simp add: process_items_step del: process_items.simps(2))
    next
      case n2: None
      from Cons.IH [OF same] have "snd (snd (process_items w n2 (Suc idx2) items rows2)) = rows2" .
      with n2 st show ?thesis
        by (simp add: process_items_step del: process_items.simps(2))
    qed
  qed
qed

text \<open>
  C2. Running a batch on the table that a run of the same batch left, in the same world,
  gives that table again: the same rows with the same contents, in the same order. This
  holds of every input document and every starting table, also when a run ends early
  with an exception.
\<close>

theorem process_input_idempotent:
  "snd (snd (process_input w data (snd (snd (process_input w data rows)))))
     = snd (snd (process_input w data rows))"
proof (cases "elements data")
  case (Inl e)
  then show ?thesis
    by (simp add: process_input_def)
next
  case (Inr items)
  then show ?thesis
    using process_items_again [of "snd (snd (process_items w (length items) 1 items rows))"
        w "length items" 1 items rows "length items" 1]
    by (simp add: process_input_def)
qed

theorem process_input_idempotent_witness:
  "snd (snd (process_input library batch [])) = shelf \<and>
   snd (snd (process_input library batch shelf)) = shelf"
proof -
  have s: "snd (snd (process_input library batch [])) = shelf"
    by code_simp
  with process_input_idempotent [of library batch "[]"] show ?thesis
    by simp
qed

section \<open>The defaults of author and category\<close>

lemma download_book:
  "download w \<lparr>kind = k, src_id = i, book = Some b\<rparr> = download w \<lparr>kind = k, src_id = i, book = None\<rparr>"
  by (cases i) (simp_all add: download_def)

lemma bind_text_default:
  "(truthy av \<longrightarrow> bind_text av = Inr a') \<Longrightarrow>
     bind_text (py_or av (JStr dflt)) = Inr (if truthy av then a' else SqlText dflt)"
  by (simp add: py_or_def bind_text_def)

lemma bind_text_url:
  "bind_text (opt_json url) = Inr (case url of None \<Rightarrow> SqlNull | Some u \<Rightarrow> SqlText u)"
  by (cases url) (simp_all add: bind_text_def)

lemma lower_get_absent:
  "key \<notin> set (map (\<lambda>(k, v). lower k) kvs) \<Longrightarrow> lower_get kvs key = JNull"
proof -
  assume "key \<notin> set (map (\<lambda>(k, v). lower k) kvs)"
  then have "key \<notin> fst ` set (rev (map (\<lambda>(k, v). (lower k, v)) kvs))"
    by (auto simp: image_iff split: prod.splits)
  then have "map_of (rev (map (\<lambda>(k, v). (lower k, v)) kvs)) key = None"
    by (simp add: map_of_eq_None_iff)
  then show ?thesis
    by (simp add: lower_get_def)
qed

lemma process_item_stores:
  assumes "truthy (lower_get kvs ''url'')" and "truthy (lower_get kvs ''title'')"
    and "resolve (lower_get kvs ''url'') = Inr (Some (k, i))"
    and "select_exists k i rows = Inr False"
    and "download w \<lparr>kind = k, src_id = Some i, book = None\<rparr> = (evs, Inr (Some x, url))"
    and "x \<noteq> []"
    and "bind (id_json i) = Inr v"
    and "bind_text (lower_get kvs ''title'') = Inr t'"
    and "truthy (lower_get kvs ''author'') \<longrightarrow> bind_text (lower_get kvs ''author'') = Inr a'"
    and "truthy (lower_get kvs ''category'') \<longrightarrow> bind_text (lower_get kvs ''category'') = Inr c'"
  shows "process_item w n idx (JObj kvs) rows =
     (Log Info (Progress idx n) # Log Info (Downloading i (domain k)) # evs
        @ [Log Info (StoredSuccessfully i), Sleep 1],
      None,
      rows @ [\<lparr>rid = next_rid rows,
               gutenberg_id = (if k = Gutenberg then v else SqlNull),
               ia_title_id = (if k = InternetArchive then v else SqlNull),
               gb_title_id = (if k = GoogleBooks then v else SqlNull),
               author = (if truthy (lower_get kvs ''author'') then a' else SqlText ''Unknown''),
               title = t',
               category = (if truthy (lower_get kvs ''category'') then c' else SqlText ''Uncategorized''),
               source_url = (case url of None \<Rightarrow> SqlNull | Some u \<Rightarrow> SqlText u),
               content = SqlText x\<rparr>])"
proof -
  let ?a = "py_or (lower_get kvs ''author'') (JStr ''Unknown'')"
  let ?c = "py_or (lower_get kvs ''category'') (JStr ''Uncategorized'')"
  let ?t = "lower_get kvs ''title''"
  have req: "request (JObj kvs) = Inr (Some (k, i, ?t, ?a, ?c))"
    using assms(1-3) by (simp add: request_def)
  have nv: "v \<noteq> SqlNull"
    using assms(7) by (rule bind_id_json_not_null)
  with assms(4,7) have ne: "\<not> list_ex (\<lambda>r. id_col k r = v) rows"
    by (simp add: select_exists_def)
  have ba: "bind_text ?a = Inr (if truthy (lower_get kvs ''author'') then a' else SqlText ''Unknown'')"
    using assms(9) by (rule bind_text_default)
  have bc: "bind_text ?c = Inr (if truthy (lower_get kvs ''category'') then c' else SqlText ''Uncategorized'')"
    using assms(10) by (rule bind_text_default)
  have ins: "insert_book k i ?a ?t ?c url x rows =
      Inr (rows @ [new_row k v (if truthy (lower_get kvs ''author'') then a' else SqlText ''Unknown'') t'
                     (if truthy (lower_get kvs ''category'') then c' else SqlText ''Uncategorized'')
                     (case url of None \<Rightarrow> SqlNull | Some u \<Rightarrow> SqlText u) (SqlText x) rows])"
    using assms(7,8) ne
    by (simp add: insert_book_def ba bc bind_text_url upsert_def)
  have bk: "book (downloader_of k i ?t ?a ?c) = Some (i, ?t, ?a, ?c)"
    "kind (downloader_of k i ?t ?a ?c) = k"
    by (simp_all add: downloader_of_def)
  have d: "download w (downloader_of k i ?t ?a ?c) = (evs, Inr (Some x, url))"
    using assms(5) by (simp add: downloader_of_def download_book)
  have st: "store_in_db w (downloader_of k i ?t ?a ?c) rows =
      (Log Info (Downloading i (domain k)) # evs @ [Log Info (StoredSuccessfully i)], None,
       rows @ [new_row k v (if truthy (lower_get kvs ''author'') then a' else SqlText ''Unknown'') t'
                     (if truthy (lower_get kvs ''category'') then c' else SqlText ''Uncategorized'')
                     (case url of None \<Rightarrow> SqlNull | Some u \<Rightarrow> SqlText u) (SqlText x) rows])"
    using assms(6) by (simp add: store_in_db_def bk d ins)
  show ?thesis
    by (simp add: process_item_request req assms(4) st new_row_def)
qed

text \<open>
  C10. A turn of the loop that stores a new row stores \<open>Unknown\<close> as the author when
  the value under the key \<open>author\<close> is falsy (null, the empty string, and likewise 0,
  false, an empty list or dictionary), and the bound value itself when it is truthy;
  likewise \<open>Uncategorized\<close> for \<open>category\<close>. A key that the record does not
  have (in any letter case) reads as a falsy value, and a record with a falsy author or
  category is processed exactly as the same record without that key.
\<close>

theorem falsy_author_category_default:
  "(truthy (lower_get kvs ''url'') \<and> truthy (lower_get kvs ''title'') \<and>
    resolve (lower_get kvs ''url'') = Inr (Some (k, i)) \<and> select_exists k i rows = Inr False \<and>
    download w \<lparr>kind = k, src_id = Some i, book = None\<rparr> = (evs, Inr (Some x, url)) \<and> x \<noteq> [] \<and>
    bind (id_json i) = Inr v \<and> bind_text (lower_get kvs ''title'') = Inr t' \<and>
    (truthy (lower_get kvs ''author'') \<longrightarrow> bind_text (lower_get kvs ''author'') = Inr a') \<and>
    (truthy (lower_get kvs ''category'') \<longrightarrow> bind_text (lower_get kvs ''category'') = Inr c')
    \<longrightarrow> process_item w n idx (JObj kvs) rows =
          (Log Info (Progress idx n) # Log Info (Downloading i (domain k)) # evs
             @ [Log Info (StoredSuccessfully i), Sleep 1],
           None,
           rows @ [\<lparr>rid = next_rid rows,
               gutenberg_id = (if k = Gutenberg then v else SqlNull),
               ia_title_id = (if k = InternetArchive then v else SqlNull),
               gb_title_id = (if k = GoogleBooks then v else SqlNull),
               author = (if truthy (lower_get kvs ''author'') then a' else SqlText ''Unknown''),
               title = t',
               category = (if truthy (lower_get kvs ''category'') then c' else SqlText ''Uncategorized''),
               source_url = (case url of None \<Rightarrow> SqlNull | Some u \<Rightarrow> SqlText u),
               content = SqlText x\<rparr>])) \<and>
   (key \<notin> set (map (\<lambda>(k, v). lower k) kvs) \<longrightarrow> \<not> truthy (lower_get kvs key)) \<and>
   (\<not> truthy (lower_get kvs ''author'') \<longrightarrow>
      process_item w n idx (JObj kvs) rows = process_item w n idx (JObj (without ''author'' kvs)) rows) \<and>
   (\<not> truthy (lower_get kvs ''category'') \<longrightarrow>
      process_item w n idx (JObj kvs) rows = process_item w n idx (JObj (without ''category'' kvs)) rows)"
proof (intro conjI impI)
  assume "truthy (lower_get kvs ''url'') \<and> truthy (lower_get kvs ''title'') \<and>
    resolve (lower_get kvs ''url'') = Inr (Some (k, i)) \<and> select_exists k i rows = Inr False \<and>
    download w \<lparr>kind = k, src_id = Some i, book = None\<rparr> = (evs, Inr (Some x, url)) \<and> x \<noteq> [] \<and>
    bind (id_json i) = Inr v \<and> bind_text (lower_get kvs ''title'') = Inr t' \<and>
    (truthy (lower_get kvs ''author'') \<longrightarrow> bind_text (lower_get kvs ''author'') = Inr a') \<and>
    (truthy (lower_get kvs ''category'') \<longrightarrow> bind_text (lower_get kvs ''category'') = Inr c')"
  then show "process_item w n idx (JObj kvs) rows =
          (Log Info (Progress idx n) # Log Info (Downloading i (domain k)) # evs
             @ [Log Info (StoredSuccessfully i), Sleep 1],
           None,
           rows @ [\<lparr>rid = next_rid rows,
               gutenberg_id = (if k = Gutenberg then v else SqlNull),
               ia_title_id = (if k = InternetArchive then v else SqlNull),
               gb_title_id = (if k = GoogleBooks then v else SqlNull),
               author = (if truthy (lower_get kvs ''author'') then a' else SqlText ''Unknown''),
               title = t',
               category = (if truthy (lower_get kvs ''category'') then c' else SqlText ''Uncategorized''),
               source_url = (case url of None \<Rightarrow> SqlNull | Some u \<Rightarrow> SqlText u),
               content = SqlText x\<rparr>])"
    using process_item_stores [of kvs k i rows w evs x url v t' a' c' n idx] by blast
next
  assume "key \<notin> set (map (\<lambda>(k, v). lower k) kvs)"
  then show "\<not> truthy (lower_get kvs key)"
    by (simp add: lower_get_absent)
next
  assume "\<not> truthy (lower_get kvs ''author'')"
  then show "process_item w n idx (JObj kvs) rows = process_item w n idx (JObj (without ''author'' kvs)) rows"
    by (simp add: process_item_def lower_get_without py_or_def)
next
  assume "\<not> truthy (lower_get kvs ''category'')"
  then show "process_item w n idx (JObj kvs) rows = process_item w n idx (JObj (without ''category'' kvs)) rows"
    by (simp add: process_item_def lower_get_without py_or_def)
qed

theorem falsy_author_category_default_witness:
  "\<not> truthy (lower_get moby ''author'') \<and> \<not> truthy (lower_get moby ''category'') \<and>
   snd (snd (process_item library 2 1 (JObj moby) [])) =
     [\<lparr>rid = 1, gutenberg_id = SqlInt 1, ia_title_id = SqlNull, gb_title_id = SqlNull,
       author = SqlText ''Unknown'', title = SqlText ''Moby Dick'',
       category = SqlText ''Uncategorized'',
       source_url = SqlText ''https://www.gutenberg.org/files/1/1-0.txt'',
       content = SqlText ''Call me Ishmael.''\<rparr>] \<and>
   ''author'' \<notin> set (map (\<lambda>(k, v). lower k) bare) \<and>
   ''category'' \<notin> set (map (\<lambda>(k, v). lower k) bare) \<and>
   snd (snd (process_item library 2 1 (JObj bare) [])) =
     [\<lparr>rid = 1, gutenberg_id = SqlInt 1, ia_title_id = SqlNull, gb_title_id = SqlNull,
       author = SqlText ''Unknown'', title = SqlText ''Moby Dick'',
       category = SqlText ''Uncategorized'',
       source_url = SqlText ''https://www.gutenberg.org/files/1/1-0.txt'',
       content = SqlText ''Call me Ishmael.''\<rparr>] \<and>
   process_item library 2 1 (JObj moby) [] = process_item library 2 1 (JObj (without ''author'' moby)) [] \<and>
   process_item library 2 1 (JObj moby) [] = process_item library 2 1 (JObj (without ''category'' moby)) []"
proof -
  let ?u = "''https://www.gutenberg.org/files/1/1-0.txt''"
  let ?row = "\<lparr>rid = 1, gutenberg_id = SqlInt 1, ia_title_id = SqlNull, gb_title_id = SqlNull,
       author = SqlText ''Unknown'', title = SqlText ''Moby Dick'',
       category = SqlText ''Uncategorized'', source_url = SqlText ?u,
       content = SqlText ''Call me Ishmael.''\<rparr>"
  have a: "\<not> truthy (lower_get moby ''author'')" by code_simp
  have c: "\<not> truthy (lower_get moby ''category'')" by code_simp
  have u: "truthy (lower_get moby ''url'')" by code_simp
  have t: "truthy (lower_get moby ''title'')" by code_simp
  have r: "resolve (lower_get moby ''url'') = Inr (Some (Gutenberg, IntId 1))" by code_simp
  have e: "select_exists Gutenberg (IntId 1) [] = Inr False" by code_simp
  have d: "download library \<lparr>kind = Gutenberg, src_id = Some (IntId 1), book = None\<rparr>
      = ([Get ?u], Inr (Some ''Call me Ishmael.'', Some ?u))"
    by code_simp
  have x: "''Call me Ishmael.'' \<noteq> []" by simp
  have v: "bind (id_json (IntId 1)) = Inr (SqlInt 1)" by simp
  have bt: "bind_text (lower_get moby ''title'') = Inr (SqlText ''Moby Dick'')" by code_simp
  have ab: "''author'' \<notin> set (map (\<lambda>(k, v). lower k) bare)" by code_simp
  have cb: "''category'' \<notin> set (map (\<lambda>(k, v). lower k) bare)" by code_simp
  have u': "truthy (lower_get bare ''url'')" by code_simp
  have t': "truthy (lower_get bare ''title'')" by code_simp
  have r': "resolve (lower_get bare ''url'') = Inr (Some (Gutenberg, IntId 1))" by code_simp
  have bt': "bind_text (lower_get bare ''title'') = Inr (SqlText ''Moby Dick'')" by code_simp
  have n: "next_rid [] = 1" by (simp add: next_rid_def)
  note th = falsy_author_category_default [of moby Gutenberg "IntId 1" "[]" library "[Get ?u]"
      "''Call me Ishmael.''" "Some ?u" "SqlInt 1" "SqlText ''Moby Dick''" SqlNull SqlNull 2 1 "''author''"]
  note th' = falsy_author_category_default [of bare Gutenberg "IntId 1" "[]" library "[Get ?u]"
      "''Call me Ishmael.''" "Some ?u" "SqlInt 1" "SqlText ''Moby Dick''" SqlNull SqlNull 2 1 "''author''"]
  note th'' = falsy_author_category_default [of bare Gutenberg "IntId 1" "[]" library "[Get ?u]"
      "''Call me Ishmael.''" "Some ?u" "SqlInt 1" "SqlText ''Moby Dick''" SqlNull SqlNull 2 1 "''category''"]
  from th u t r e d x v bt a c
  have "process_item library 2 1 (JObj moby) [] =
      (Log Info (Progress 1 2) # Log Info (Downloading (IntId 1) (domain Gutenberg)) # [Get ?u]
         @ [Log Info (StoredSuccessfully (IntId 1)), Sleep 1],
       None,
       [] @ [\<lparr>rid = next_rid [],
               gutenberg_id = (if Gutenberg = Gutenberg then SqlInt 1 else SqlNull),
               ia_title_id = (if Gutenberg = InternetArchive then SqlInt 1 else SqlNull),
               gb_title_id = (if Gutenberg = GoogleBooks then SqlInt 1 else SqlNull),
               author = (if truthy (lower_get moby ''author'') then SqlNull else SqlText ''Unknown''),
               title = SqlText ''Moby Dick'',
               category = (if truthy (lower_get moby ''category'') then SqlNull else SqlText ''Uncategorized''),
               source_url = (case Some ?u of None \<Rightarrow> SqlNull | Some u \<Rightarrow> SqlText u),
               content = SqlText ''Call me Ishmael.''\<rparr>])"
    by blast
  then have 1: "snd (snd (process_item library 2 1 (JObj moby) [])) = [?row]"
    by (simp add: a c n)
  from th' ab have a': "\<not> truthy (lower_get bare ''author'')" by blast
  from th'' cb have c': "\<not> truthy (lower_get bare ''category'')" by blast
  from th' u' t' r' e d x v bt' a' c'
  have "process_item library 2 1 (JObj bare) [] =
      (Log Info (Progress 1 2) # Log Info (Downloading (IntId 1) (domain Gutenberg)) # [Get ?u]
         @ [Log Info (StoredSuccessfully (IntId 1)), Sleep 1],
       None,
       [] @ [\<lparr>rid = next_rid [],
               gutenberg_id = (if Gutenberg = Gutenberg then SqlInt 1 else SqlNull),
               ia_title_id = (if Gutenberg = InternetArchive then SqlInt 1 else SqlNull),
               gb_title_id = (if Gutenberg = GoogleBooks then SqlInt 1 else SqlNull),
               author = (if truthy (lower_get bare ''author'') then SqlNull else SqlText ''Unknown''),
               title = SqlText ''Moby Dick'',
               category = (if truthy (lower_get bare ''category'') then SqlNull else SqlText ''Uncategorized''),
               source_url = (case Some ?u of None \<Rightarrow> SqlNull | Some u \<Rightarrow> SqlText u),
               content = SqlText ''Call me Ishmael.''\<rparr>])"
    by blast
  then have 2: "snd (snd (process_item library 2 1 (JObj bare) [])) = [?row]"
    by (simp add: a' c' n)
  from th a c have 3: "process_item library 2 1 (JObj moby) [] = process_item library 2 1 (JObj (without ''author'' moby)) []"
    and 4: "process_item library 2 1 (JObj moby) [] = process_item library 2 1 (JObj (without ''category'' moby)) []"
    by blast+
  from a c 1 ab cb 2 3 4 show ?thesis by blast
qed

end
